theory Spec2Isabelle
  imports Main "HOL-Library.Word"
begin

section \<open>pngview: the session loop of \<open>src/pngview/pngview.c\<close>\<close>

text \<open>
  The program shows one PNG on a DispmanX layer and then runs a polling loop
  (\<open>while (run)\<close>, lines 300-420 of \<open>pngview.c\<close>) that optionally watches the file's
  modification time, reloads the image on request, moves the layer on key presses and stops
  on a signal, on the escape key or on a timeout.

  The embedding follows the C text. The locals and globals the loop reads and writes are
  the fields of one record; \<open>int32_t\<close> and \<open>uint32_t\<close> are 32-bit words (arithmetic wraps,
  \<open>\<le>\<close> on words is the unsigned comparison that C uses for \<open>uint32_t\<close>, \<open>sint\<close> reads an
  \<open>int32_t\<close>); everything the loop asks of the outside world in one iteration (the result
  of \<open>stat\<close>, of \<open>loadPng\<close>, of \<open>keyPressed\<close>, and the signals delivered) is one record of
  inputs; every call the loop makes to a collaborator is an event of the iteration's trace.
\<close>

subsection \<open>Data\<close>

type_synonym int32_t = "32 word"
type_synonym uint32_t = "32 word"
type_synonym time_t = int
type_synonym IMAGE_T = "nat list"

text \<open>The signals for which \<open>main\<close> installs \<open>signalHandler\<close> (lines 215-233).\<close>

datatype signal = SIGTSTP | SIGINT | SIGTERM

text \<open>
  The variables of \<open>main\<close> that are live in the loop, and the two \<open>volatile\<close> globals
  \<open>run\<close> and \<open>reload\<close> (lines 56-57, 110-120, 190-192, 293-295).
\<close>

record session =
  run :: bool
  reload :: bool
  xOffset :: int32_t
  yOffset :: int32_t
  step :: int32_t
  currentTime :: uint32_t
  lastModCheckTime :: uint32_t
  lastFileMod :: time_t
  timeout :: uint32_t
  interactive :: bool
  monitorChanges :: bool
  imagePath :: string
  image :: IMAGE_T

text \<open>
  What one iteration of the loop receives from outside.
  \<^item> \<open>statResult\<close>: \<open>Some m\<close> when \<open>stat(path, &attr)\<close> succeeds and stores the
    modification time \<open>m\<close>, \<open>None\<close> when it fails and leaves \<open>attr\<close> untouched;
  \<^item> \<open>attrUninit\<close>: the indeterminate content of the uninitialised local
    \<open>attr.st_mtime\<close> before the call;
  \<^item> \<open>loadPngResult\<close>: \<open>Some img\<close> when \<open>loadPng\<close> returns true and has decoded \<open>img\<close>,
    \<open>None\<close> when it returns false;
  \<^item> \<open>keyResult\<close>: \<open>Some c\<close> when \<open>keyPressed(&c)\<close> returns true, with \<open>c\<close> the value
    of the local afterwards (it starts at 0 in every iteration), \<open>None\<close> when it returns false;
  \<^item> \<open>signals\<close>: the signals delivered while the iteration sleeps.
\<close>

record tick_env =
  statResult :: "time_t option"
  attrUninit :: time_t
  loadPngResult :: "IMAGE_T option"
  keyResult :: "int option"
  signals :: "signal list"

text \<open>The calls of the loop to its collaborators, in the order it makes them.\<close>

datatype event =
    Stat string
  | LoadPng string
  | Usleep nat
  | ChangeSourceAndUpdateImageLayer IMAGE_T
  | KeyPressed
  | UpdateStart
  | MoveImageLayer int32_t int32_t
  | UpdateSubmitSync

subsection \<open>The functions before \<open>main\<close>\<close>

text \<open>Lines 61-76. The \<open>switch\<close> has no default.\<close>

fun signalHandler :: "signal \<Rightarrow> session \<Rightarrow> session" where
  "signalHandler SIGTSTP s = s\<lparr>reload := True\<rparr>"
| "signalHandler SIGINT s = s\<lparr>run := False\<rparr>"
| "signalHandler SIGTERM s = s\<lparr>run := False\<rparr>"

text \<open>
  Lines 78-83. The return value of \<open>stat\<close> is not looked at: when \<open>stat\<close> fails, the function
  returns the field of the local \<open>attr\<close> as it was before the call.
\<close>

definition getFileModificationTime :: "time_t option \<Rightarrow> time_t \<Rightarrow> time_t" where
  "getFileModificationTime st uninit = (case st of Some m \<Rightarrow> m | None \<Rightarrow> uninit)"

subsection \<open>The loop body\<close>

text \<open>\<open>tolower\<close> of the C locale (the program never calls \<open>setlocale\<close>).\<close>

definition tolower :: "int \<Rightarrow> int" where
  "tolower c = (if 65 \<le> c \<and> c \<le> 90 then c + 32 else c)"

text \<open>Lines 305-312: the optional check of the file's modification time.\<close>

definition monitorStep :: "session \<Rightarrow> tick_env \<Rightarrow> event list \<times> session" where
  "monitorStep s e =
     (if monitorChanges s \<and> 1000 \<le> currentTime s - lastModCheckTime s then
        (let modTime = getFileModificationTime (statResult e) (attrUninit e)
         in ([Stat (imagePath s)],
             s\<lparr>lastModCheckTime := currentTime s,
               reload := (if lastFileMod s \<noteq> modTime then True else reload s),
               lastFileMod := modTime\<rparr>))
      else ([], s))"

text \<open>
  Lines 314-328: the reload. \<open>reload\<close> is cleared before the attempt (line 315) and once more
  after a successful one (line 324). When \<open>loadPng\<close> fails, the model leaves \<open>image\<close> as it
  was.
\<close>

definition reloadStep :: "session \<Rightarrow> tick_env \<Rightarrow> event list \<times> session" where
  "reloadStep s e =
     (if reload s then
        (if imagePath s \<noteq> ''-'' then
           (case loadPngResult e of
              None \<Rightarrow> ([LoadPng (imagePath s), Usleep (200 * 1000)], s\<lparr>reload := False\<rparr>)
            | Some img \<Rightarrow>
                ([LoadPng (imagePath s), ChangeSourceAndUpdateImageLayer img],
                 s\<lparr>reload := False, image := img\<rparr>))
         else ([], s\<lparr>reload := False\<rparr>))
      else ([], s))"

text \<open>
  Lines 336-398: the \<open>switch\<close> on the lower-cased character. The result is the new state and
  the local \<open>moveLayer\<close>. The character codes are 27 (escape), 97 \<open>a\<close>, 100 \<open>d\<close>, 119 \<open>w\<close>,
  115 \<open>s\<close>, 43 \<open>+\<close> and 45 \<open>-\<close>.
\<close>

definition switchKey :: "session \<Rightarrow> int \<Rightarrow> session \<times> bool" where
  "switchKey s c =
     (if c = 27 then (s\<lparr>run := False\<rparr>, False)
      else if c = 97 then (s\<lparr>xOffset := xOffset s - step s\<rparr>, True)
      else if c = 100 then (s\<lparr>xOffset := xOffset s + step s\<rparr>, True)
      else if c = 119 then (s\<lparr>yOffset := yOffset s - step s\<rparr>, True)
      else if c = 115 then (s\<lparr>yOffset := yOffset s + step s\<rparr>, True)
      else if c = 43 then
        (if step s = 1 then (s\<lparr>step := 5\<rparr>, False)
         else if step s = 5 then (s\<lparr>step := 10\<rparr>, False)
         else if step s = 10 then (s\<lparr>step := 20\<rparr>, False)
         else (s, False))
      else if c = 45 then
        (if step s = 20 then (s\<lparr>step := 10\<rparr>, False)
         else if step s = 10 then (s\<lparr>step := 5\<rparr>, False)
         else if step s = 5 then (s\<lparr>step := 1\<rparr>, False)
         else (s, False))
      else (s, False))"

text \<open>
  Lines 330-410. \<open>keyPressed\<close> is called only when \<open>interactive\<close> holds (\<open>&&\<close> does not
  evaluate its right operand otherwise); a move opens and submits its own update.
\<close>

definition inputStep :: "session \<Rightarrow> tick_env \<Rightarrow> event list \<times> session" where
  "inputStep s e =
     (if interactive s then
        (case keyResult e of
           None \<Rightarrow> ([KeyPressed], s)
         | Some c \<Rightarrow>
             (let (s', moveLayer) = switchKey s (tolower c)
              in if moveLayer
                 then ([KeyPressed, UpdateStart, MoveImageLayer (xOffset s') (yOffset s'),
                        UpdateSubmitSync], s')
                 else ([KeyPressed], s')))
      else ([], s))"

text \<open>
  Lines 414-419: the sleep of 10 ms, the clock and the timeout. Signals are asynchronous; the
  model delivers those of an iteration during its sleep, where the loop spends its time.
\<close>

definition sleepMilliseconds :: nat where
  "sleepMilliseconds = 10"

definition sleepStep :: "session \<Rightarrow> tick_env \<Rightarrow> event list \<times> session" where
  "sleepStep s e =
     (let s1 = fold signalHandler (signals e) s;
          s2 = s1\<lparr>currentTime := currentTime s1 + of_nat sleepMilliseconds\<rparr>
      in ([Usleep (sleepMilliseconds * 1000)],
          if timeout s2 \<noteq> 0 \<and> timeout s2 \<le> currentTime s2 then s2\<lparr>run := False\<rparr> else s2))"

text \<open>Lines 301-419: one iteration, its trace and the state it leaves.\<close>

definition loopBody :: "session \<Rightarrow> tick_env \<Rightarrow> event list \<times> session" where
  "loopBody s e =
     (let (t1, s1) = monitorStep s e;
          (t2, s2) = reloadStep s1 e;
          (t3, s3) = inputStep s2 e;
          (t4, s4) = sleepStep s3 e
      in (t1 @ t2 @ t3 @ t4, s4))"

text \<open>
  Line 300: \<open>while (run)\<close>. The loop need not end (no timeout, no signal), so the model runs
  it against a finite list of inputs, one per iteration: it stops when \<open>run\<close> is false or
  when the inputs are used up. The result is the list of the traces of the iterations that
  ran, and the last state.
\<close>

fun mainLoop :: "session \<Rightarrow> tick_env list \<Rightarrow> event list list \<times> session" where
  "mainLoop s [] = ([], s)"
| "mainLoop s (e # es) =
     (if run s then
        (let (t, s') = loopBody s e;
             (ts, s'') = mainLoop s' es
         in (t # ts, s''))
      else ([], s))"

text \<open>
  The state in which \<open>main\<close> enters the loop (lines 110-120, 192-212, 293-295): the options
  as parsed, the offsets as given or centred, the image as loaded, and \<open>lastFileMod\<close> either
  0 (standard input) or the modification time read after the first load.
\<close>

definition startup ::
  "uint32_t \<Rightarrow> bool \<Rightarrow> bool \<Rightarrow> string \<Rightarrow> int32_t \<Rightarrow> int32_t \<Rightarrow> time_t \<Rightarrow> IMAGE_T \<Rightarrow> session" where
  "startup tmo ia mon path x y modTime img =
     \<lparr>run = True, reload = False, xOffset = x, yOffset = y, step = 1,
      currentTime = 0, lastModCheckTime = 0,
      lastFileMod = (if path = ''-'' then 0 else modTime),
      timeout = tmo, interactive = ia, monitorChanges = mon,
      imagePath = path, image = img\<rparr>"

text \<open>
  An iteration in which nothing happens outside: no key, no signal, \<open>stat\<close> reports the
  modification time \<open>m\<close>. (A decode, were one attempted, would fail.)
\<close>

definition idle :: "time_t \<Rightarrow> tick_env" where
  "idle m = \<lparr>statResult = Some m, attrUninit = 0, loadPngResult = None,
             keyResult = None, signals = []\<rparr>"

text \<open>The same iteration with the key \<open>c\<close> waiting on the keyboard.\<close>

definition pressed :: "int \<Rightarrow> tick_env" where
  "pressed c = \<lparr>statResult = Some 0, attrUninit = 0, loadPngResult = None,
                keyResult = Some c, signals = []\<rparr>"

text \<open>
  An iteration in which the file is not there: \<open>stat\<close> fails, \<open>loadPng\<close> fails, and the
  uninitialised \<open>attr.st_mtime\<close> holds \<open>u\<close>.
\<close>

definition missingFile :: "time_t \<Rightarrow> tick_env" where
  "missingFile u = \<lparr>statResult = None, attrUninit = u, loadPngResult = None,
                    keyResult = None, signals = []\<rparr>"

subsection \<open>Notions used to state the properties\<close>

text \<open>
  The events of the keyboard branch (lines 330-410): the call of \<open>keyPressed\<close> and the move
  transaction.
\<close>

fun isInputEvent :: "event \<Rightarrow> bool" where
  "isInputEvent KeyPressed = True"
| "isInputEvent UpdateStart = True"
| "isInputEvent (MoveImageLayer x y) = True"
| "isInputEvent UpdateSubmitSync = True"
| "isInputEvent _ = False"

text \<open>The events of a reload: the decode attempt and the content update.\<close>

fun isReloadEvent :: "event \<Rightarrow> bool" where
  "isReloadEvent (LoadPng p) = True"
| "isReloadEvent (ChangeSourceAndUpdateImageLayer img) = True"
| "isReloadEvent _ = False"

text \<open>
  The part of the loop body an event belongs to: 0 the poll of the modification time,
  1 the reload (with its pause of 200 ms), 2 the keyboard branch, 3 the fixed sleep.
\<close>

fun phase :: "event \<Rightarrow> nat" where
  "phase (Stat p) = 0"
| "phase (LoadPng p) = 1"
| "phase (ChangeSourceAndUpdateImageLayer img) = 1"
| "phase (Usleep us) = (if us = sleepMilliseconds * 1000 then 3 else 1)"
| "phase KeyPressed = 2"
| "phase UpdateStart = 2"
| "phase (MoveImageLayer x y) = 2"
| "phase UpdateSubmitSync = 2"

text \<open>
  Update transactions. The loop itself submits one with \<open>vc_dispmanx_update_submit_sync\<close>
  (line 407). \<open>changeSourceAndUpdateImageLayer\<close> is declared in \<open>imageLayer.h\<close> and its body
  is not part of \<open>pngview.c\<close>; it gets no update handle from the loop, and the parameter \<open>k\<close>
  stands for the number of transactions one call of it submits.
\<close>

fun submitted :: "nat \<Rightarrow> event \<Rightarrow> nat" where
  "submitted k UpdateSubmitSync = 1"
| "submitted k (ChangeSourceAndUpdateImageLayer img) = k"
| "submitted k _ = 0"

definition transactions :: "nat \<Rightarrow> event list \<Rightarrow> nat" where
  "transactions k t = sum_list (map (submitted k) t)"

text \<open>
  The two ways in which an iteration changes what is shown: the reload goes through (the
  flag is set when line 314 is reached, the source is a path and \<open>loadPng\<close> succeeds), and a
  direction key is read in an interactive session.
\<close>

definition contentReplaced :: "session \<Rightarrow> tick_env \<Rightarrow> bool" where
  "contentReplaced s e =
     (reload (snd (monitorStep s e)) \<and> imagePath s \<noteq> ''-'' \<and> loadPngResult e \<noteq> None)"

definition layerMoved :: "session \<Rightarrow> tick_env \<Rightarrow> bool" where
  "layerMoved s e =
     (interactive s \<and>
      (case keyResult e of None \<Rightarrow> False
       | Some c \<Rightarrow> tolower c = 97 \<or> tolower c = 100 \<or> tolower c = 119 \<or> tolower c = 115))"

text \<open>
  An iteration asks the loop to stop when \<open>SIGINT\<close> or \<open>SIGTERM\<close> is delivered in it or, in an
  interactive session, when the escape key is read.
\<close>

definition stopRequested :: "bool \<Rightarrow> tick_env \<Rightarrow> bool" where
  "stopRequested ia e =
     (SIGINT \<in> set (signals e) \<or> SIGTERM \<in> set (signals e)
      \<or> (ia \<and> (case keyResult e of None \<Rightarrow> False | Some c \<Rightarrow> tolower c = 27)))"

text \<open>The characters read from the keyboard by the iterations that ran.\<close>

definition keysRead :: "session \<Rightarrow> tick_env list \<Rightarrow> int list" where
  "keysRead s es = List.map_filter keyResult (take (length (fst (mainLoop s es))) es)"

subsection \<open>Notions of the specification\<close>

text \<open>The step ladder of the specification (invariant I3).\<close>

definition ladder :: "int32_t list" where
  "ladder = [1, 5, 10, 20]"

text \<open>
  The edits of the specification (4.1, \<open>applyInput\<close>): quit, four directional moves, two
  transitions on the step ladder; \<open>editOf\<close> is the edit a character stands for, in either
  case.
\<close>

datatype edit = Quit | MoveLeft | MoveRight | MoveUp | MoveDown | StepUp | StepDown | NoEdit

definition editOf :: "int \<Rightarrow> edit" where
  "editOf c =
     (if c = 27 then Quit
      else if c = 97 \<or> c = 65 then MoveLeft
      else if c = 100 \<or> c = 68 then MoveRight
      else if c = 119 \<or> c = 87 then MoveUp
      else if c = 115 \<or> c = 83 then MoveDown
      else if c = 43 then StepUp
      else if c = 45 then StepDown
      else NoEdit)"

text \<open>
  The specification's reading of a sequence of edits: a ladder transition moves \<open>step\<close>
  one rung and stays at the ends, a move contributes \<open>+step\<close> or \<open>-step\<close> on its axis with
  the step of that moment, and the signed sum adds up the contributions. All of it in
  unbounded integers.
\<close>

fun stepAfter :: "int \<Rightarrow> edit \<Rightarrow> int" where
  "stepAfter st StepUp = (if st = 1 then 5 else if st = 5 then 10 else if st = 10 then 20 else st)"
| "stepAfter st StepDown = (if st = 20 then 10 else if st = 10 then 5 else if st = 5 then 1 else st)"
| "stepAfter st _ = st"

fun moveTerm :: "int \<Rightarrow> edit \<Rightarrow> int \<times> int" where
  "moveTerm st MoveLeft = (- st, 0)"
| "moveTerm st MoveRight = (st, 0)"
| "moveTerm st MoveUp = (0, - st)"
| "moveTerm st MoveDown = (0, st)"
| "moveTerm st _ = (0, 0)"

fun signedSum :: "int \<Rightarrow> edit list \<Rightarrow> int \<times> int" where
  "signedSum st [] = (0, 0)"
| "signedSum st (ed # eds) =
     (fst (moveTerm st ed) + fst (signedSum (stepAfter st ed) eds),
      snd (moveTerm st ed) + snd (signedSum (stepAfter st ed) eds))"

section \<open>Properties\<close>

subsection \<open>What each part of the loop body leaves alone\<close>

lemma signalHandler_frame [simp]:
  "xOffset (signalHandler g s) = xOffset s"
  "yOffset (signalHandler g s) = yOffset s"
  "step (signalHandler g s) = step s"
  "currentTime (signalHandler g s) = currentTime s"
  "lastModCheckTime (signalHandler g s) = lastModCheckTime s"
  "lastFileMod (signalHandler g s) = lastFileMod s"
  "timeout (signalHandler g s) = timeout s"
  "interactive (signalHandler g s) = interactive s"
  "monitorChanges (signalHandler g s) = monitorChanges s"
  "imagePath (signalHandler g s) = imagePath s"
  "image (signalHandler g s) = image s"
  by (cases g; simp)+

lemma fold_signalHandler_frame [simp]:
  "xOffset (fold signalHandler gs s) = xOffset s"
  "yOffset (fold signalHandler gs s) = yOffset s"
  "step (fold signalHandler gs s) = step s"
  "currentTime (fold signalHandler gs s) = currentTime s"
  "lastModCheckTime (fold signalHandler gs s) = lastModCheckTime s"
  "lastFileMod (fold signalHandler gs s) = lastFileMod s"
  "timeout (fold signalHandler gs s) = timeout s"
  "interactive (fold signalHandler gs s) = interactive s"
  "monitorChanges (fold signalHandler gs s) = monitorChanges s"
  "imagePath (fold signalHandler gs s) = imagePath s"
  "image (fold signalHandler gs s) = image s"
  by (induction gs arbitrary: s; simp)+

lemma monitorStep_frame [simp]:
  "run (snd (monitorStep s e)) = run s"
  "xOffset (snd (monitorStep s e)) = xOffset s"
  "yOffset (snd (monitorStep s e)) = yOffset s"
  "step (snd (monitorStep s e)) = step s"
  "currentTime (snd (monitorStep s e)) = currentTime s"
  "timeout (snd (monitorStep s e)) = timeout s"
  "interactive (snd (monitorStep s e)) = interactive s"
  "monitorChanges (snd (monitorStep s e)) = monitorChanges s"
  "imagePath (snd (monitorStep s e)) = imagePath s"
  "image (snd (monitorStep s e)) = image s"
  by (simp_all add: monitorStep_def Let_def)

lemma reloadStep_frame [simp]:
  "run (snd (reloadStep s e)) = run s"
  "xOffset (snd (reloadStep s e)) = xOffset s"
  "yOffset (snd (reloadStep s e)) = yOffset s"
  "step (snd (reloadStep s e)) = step s"
  "currentTime (snd (reloadStep s e)) = currentTime s"
  "lastModCheckTime (snd (reloadStep s e)) = lastModCheckTime s"
  "lastFileMod (snd (reloadStep s e)) = lastFileMod s"
  "timeout (snd (reloadStep s e)) = timeout s"
  "interactive (snd (reloadStep s e)) = interactive s"
  "monitorChanges (snd (reloadStep s e)) = monitorChanges s"
  "imagePath (snd (reloadStep s e)) = imagePath s"
  by (simp_all add: reloadStep_def split: option.splits)

lemma switchKey_frame [simp]:
  "reload (fst (switchKey s c)) = reload s"
  "currentTime (fst (switchKey s c)) = currentTime s"
  "lastModCheckTime (fst (switchKey s c)) = lastModCheckTime s"
  "lastFileMod (fst (switchKey s c)) = lastFileMod s"
  "timeout (fst (switchKey s c)) = timeout s"
  "interactive (fst (switchKey s c)) = interactive s"
  "monitorChanges (fst (switchKey s c)) = monitorChanges s"
  "imagePath (fst (switchKey s c)) = imagePath s"
  "image (fst (switchKey s c)) = image s"
  by (simp_all add: switchKey_def)

lemma inputStep_snd:
  "snd (inputStep s e) =
     (if interactive s
      then (case keyResult e of None \<Rightarrow> s | Some c \<Rightarrow> fst (switchKey s (tolower c)))
      else s)"
  by (simp add: inputStep_def Let_def split: option.splits prod.splits)

lemma inputStep_frame [simp]:
  "reload (snd (inputStep s e)) = reload s"
  "currentTime (snd (inputStep s e)) = currentTime s"
  "lastModCheckTime (snd (inputStep s e)) = lastModCheckTime s"
  "lastFileMod (snd (inputStep s e)) = lastFileMod s"
  "timeout (snd (inputStep s e)) = timeout s"
  "interactive (snd (inputStep s e)) = interactive s"
  "monitorChanges (snd (inputStep s e)) = monitorChanges s"
  "imagePath (snd (inputStep s e)) = imagePath s"
  "image (snd (inputStep s e)) = image s"
  by (simp_all add: inputStep_snd split: option.splits)

lemma sleepStep_frame [simp]:
  "xOffset (snd (sleepStep s e)) = xOffset s"
  "yOffset (snd (sleepStep s e)) = yOffset s"
  "step (snd (sleepStep s e)) = step s"
  "lastModCheckTime (snd (sleepStep s e)) = lastModCheckTime s"
  "lastFileMod (snd (sleepStep s e)) = lastFileMod s"
  "timeout (snd (sleepStep s e)) = timeout s"
  "interactive (snd (sleepStep s e)) = interactive s"
  "monitorChanges (snd (sleepStep s e)) = monitorChanges s"
  "imagePath (snd (sleepStep s e)) = imagePath s"
  "image (snd (sleepStep s e)) = image s"
  by (simp_all add: sleepStep_def Let_def)

lemma loopBody_fst:
  "fst (loopBody s e) =
     fst (monitorStep s e)
     @ fst (reloadStep (snd (monitorStep s e)) e)
     @ fst (inputStep (snd (reloadStep (snd (monitorStep s e)) e)) e)
     @ fst (sleepStep (snd (inputStep (snd (reloadStep (snd (monitorStep s e)) e)) e)) e)"
  by (simp add: loopBody_def Let_def split: prod.splits)

lemma loopBody_snd:
  "snd (loopBody s e) =
     snd (sleepStep (snd (inputStep (snd (reloadStep (snd (monitorStep s e)) e)) e)) e)"
  by (simp add: loopBody_def Let_def split: prod.splits)

lemma loopBody_frame [simp]:
  "timeout (snd (loopBody s e)) = timeout s"
  "interactive (snd (loopBody s e)) = interactive s"
  "monitorChanges (snd (loopBody s e)) = monitorChanges s"
  "imagePath (snd (loopBody s e)) = imagePath s"
  by (simp_all add: loopBody_snd)

lemma mainLoop_fst_Cons:
  "fst (mainLoop s (e # es)) =
     (if run s then fst (loopBody s e) # fst (mainLoop (snd (loopBody s e)) es) else [])"
  by (simp add: Let_def split: prod.splits)

lemma mainLoop_snd_Cons:
  "snd (mainLoop s (e # es)) = (if run s then snd (mainLoop (snd (loopBody s e)) es) else s)"
  by (simp add: Let_def split: prod.splits)

lemma mainLoop_stopped: "\<not> run s \<Longrightarrow> mainLoop s es = ([], s)"
  by (cases es) simp_all

declare mainLoop.simps(2) [simp del]

lemma mainLoop_frame [simp]:
  "timeout (snd (mainLoop s es)) = timeout s"
  "interactive (snd (mainLoop s es)) = interactive s"
  "monitorChanges (snd (mainLoop s es)) = monitorChanges s"
  "imagePath (snd (mainLoop s es)) = imagePath s"
  by (induction es arbitrary: s; simp add: mainLoop_snd_Cons)+

subsection \<open>The step ladder\<close>

lemma switchKey_step_cong:
  "step s = step s' \<Longrightarrow> step (fst (switchKey s c)) = step (fst (switchKey s' c))"
  by (simp add: switchKey_def)

lemma loopBody_step:
  "step (snd (loopBody s e)) =
     (if interactive s
      then (case keyResult e of None \<Rightarrow> step s
            | Some c \<Rightarrow> step (fst (switchKey s (tolower c))))
      else step s)"
proof -
  let ?s2 = "snd (reloadStep (snd (monitorStep s e)) e)"
  have "step (fst (switchKey ?s2 c)) = step (fst (switchKey s c))" for c
    by (rule switchKey_step_cong) simp
  then show ?thesis
    by (simp add: loopBody_snd inputStep_snd split: option.splits)
qed

lemma switchKey_ladder:
  "step s \<in> set ladder \<Longrightarrow> step (fst (switchKey s c)) \<in> set ladder"
  by (auto simp: switchKey_def ladder_def)

lemma loopBody_ladder:
  "step s \<in> set ladder \<Longrightarrow> step (snd (loopBody s e)) \<in> set ladder"
  by (simp add: loopBody_step switchKey_ladder split: option.splits)

lemma mainLoop_ladder:
  "step s \<in> set ladder \<Longrightarrow> step (snd (mainLoop s es)) \<in> set ladder"
proof (induction es arbitrary: s)
  case Nil
  then show ?case by simp
next
  case (Cons e es)
  from Cons.prems have "step (snd (loopBody s e)) \<in> set ladder"
    by (rule loopBody_ladder)
  then have "step (snd (mainLoop (snd (loopBody s e)) es)) \<in> set ladder"
    by (rule Cons.IH)
  then show ?case using Cons.prems
    by (simp only: mainLoop_snd_Cons split: if_splits) simp
qed

lemma rung_up:
  assumes "i < 4" and st: "step s = ladder ! i" and ia: "interactive s"
  shows "step (snd (loopBody s (e\<lparr>keyResult := Some 43\<rparr>))) = ladder ! min (i + 1) 3"
proof -
  from \<open>i < 4\<close> consider "i = 0" | "i = 1" | "i = 2" | "i = 3" by linarith
  then show ?thesis
    using st ia by cases (simp_all add: loopBody_step switchKey_def tolower_def ladder_def)
qed

lemma rung_down:
  assumes "i < 4" and st: "step s = ladder ! i" and ia: "interactive s"
  shows "step (snd (loopBody s (e\<lparr>keyResult := Some 45\<rparr>))) = ladder ! (i - 1)"
proof -
  from \<open>i < 4\<close> consider "i = 0" | "i = 1" | "i = 2" | "i = 3" by linarith
  then show ?thesis
    using st ia by cases (simp_all add: loopBody_step switchKey_def tolower_def ladder_def)
qed

lemma four_increases:
  assumes ia: "interactive s" and st: "step s = 1"
  shows "step (snd (loopBody s (ea\<lparr>keyResult := Some 43\<rparr>))) = 5"
    and "step (snd (loopBody (snd (loopBody s (ea\<lparr>keyResult := Some 43\<rparr>)))
            (eb\<lparr>keyResult := Some 43\<rparr>))) = 10"
    and "step (snd (loopBody (snd (loopBody (snd (loopBody s (ea\<lparr>keyResult := Some 43\<rparr>)))
            (eb\<lparr>keyResult := Some 43\<rparr>))) (ec\<lparr>keyResult := Some 43\<rparr>))) = 20"
    and "step (snd (loopBody (snd (loopBody (snd (loopBody (snd (loopBody s
            (ea\<lparr>keyResult := Some 43\<rparr>))) (eb\<lparr>keyResult := Some 43\<rparr>)))
            (ec\<lparr>keyResult := Some 43\<rparr>))) (ed\<lparr>keyResult := Some 43\<rparr>))) = 20"
  using ia st by (simp_all add: loopBody_step switchKey_def tolower_def)

text \<open>
  Claim C6. In every state the loop reaches from its start, \<open>step\<close> is one of 1, 5, 10, 20.
  A \<open>+\<close> key moves \<open>step\<close> one rung up the ladder and a \<open>-\<close> key one rung down, and both stay
  where they are at the ends (\<open>+\<close> at 20, \<open>-\<close> at 1). Starting from \<open>step = 1\<close>, four
  iterations that each read a \<open>+\<close> leave \<open>step\<close> at 5, 10, 20 and 20, whatever else those
  iterations receive.
\<close>

theorem step_ladder:
  "step (snd (mainLoop (startup tmo ia mon path x y modTime img) es)) \<in> set ladder
   \<and> (i < 4 \<and> step s = ladder ! i \<and> interactive s \<longrightarrow>
        step (snd (loopBody s (e\<lparr>keyResult := Some 43\<rparr>))) = ladder ! min (i + 1) 3
        \<and> step (snd (loopBody s (e\<lparr>keyResult := Some 45\<rparr>))) = ladder ! (i - 1))
   \<and> (interactive s \<and> step s = 1 \<longrightarrow>
        (let s1 = snd (loopBody s (ea\<lparr>keyResult := Some 43\<rparr>));
             s2 = snd (loopBody s1 (eb\<lparr>keyResult := Some 43\<rparr>));
             s3 = snd (loopBody s2 (ec\<lparr>keyResult := Some 43\<rparr>));
             s4 = snd (loopBody s3 (ed\<lparr>keyResult := Some 43\<rparr>))
         in [step s1, step s2, step s3, step s4] = [5, 10, 20, 20]))"
proof (intro conjI impI)
  have "step (startup tmo ia mon path x y modTime img) \<in> set ladder"
    by (simp add: startup_def ladder_def)
  then show "step (snd (mainLoop (startup tmo ia mon path x y modTime img) es)) \<in> set ladder"
    by (rule mainLoop_ladder)
next
  assume "i < 4 \<and> step s = ladder ! i \<and> interactive s"
  then show "step (snd (loopBody s (e\<lparr>keyResult := Some 43\<rparr>))) = ladder ! min (i + 1) 3"
    using rung_up [where i = i and s = s and e = e] by blast
next
  assume "i < 4 \<and> step s = ladder ! i \<and> interactive s"
  then show "step (snd (loopBody s (e\<lparr>keyResult := Some 45\<rparr>))) = ladder ! (i - 1)"
    using rung_down [where i = i and s = s and e = e] by blast
next
  assume "interactive s \<and> step s = 1"
  then have ia: "interactive s" and st: "step s = 1" by simp_all
  show "let s1 = snd (loopBody s (ea\<lparr>keyResult := Some 43\<rparr>));
                 s2 = snd (loopBody s1 (eb\<lparr>keyResult := Some 43\<rparr>));
                 s3 = snd (loopBody s2 (ec\<lparr>keyResult := Some 43\<rparr>));
                 s4 = snd (loopBody s3 (ed\<lparr>keyResult := Some 43\<rparr>))
             in [step s1, step s2, step s3, step s4] = [5, 10, 20, 20]"
    unfolding Let_def using four_increases [OF ia st] by simp
qed

text \<open>
  The theorem at a concrete session: an interactive session without timeout, moved to the
  rung 10 by two \<open>+\<close> keys, and a session at its start.
\<close>

theorem step_ladder_witness:
  "step (snd (mainLoop (startup 0 True False ''a.png'' 0 0 0 []) [pressed 43, pressed 43]))
     = ladder ! 2
   \<and> interactive (snd (mainLoop (startup 0 True False ''a.png'' 0 0 0 []) [pressed 43, pressed 43]))
   \<and> step (snd (loopBody
        (snd (mainLoop (startup 0 True False ''a.png'' 0 0 0 []) [pressed 43, pressed 43]))
        (pressed 43))) = 20
   \<and> step (snd (loopBody
        (snd (mainLoop (startup 0 True False ''a.png'' 0 0 0 []) [pressed 43, pressed 43]))
        (pressed 45))) = 5
   \<and> interactive (startup 0 True False ''a.png'' 0 0 0 [])
   \<and> step (startup 0 True False ''a.png'' 0 0 0 []) = 1
   \<and> step (snd (loopBody (snd (loopBody (snd (loopBody (snd (loopBody
        (startup 0 True False ''a.png'' 0 0 0 [])
        (pressed 43))) (pressed 43))) (pressed 43))) (pressed 43))) = 20"
proof -
  let ?init = "startup 0 True False ''a.png'' 0 0 0 []"
  let ?s = "snd (mainLoop ?init [pressed 43, pressed 43])"
  have st: "step ?s = ladder ! 2"
    by code_simp
  have ia: "interactive ?s" by (simp add: startup_def)
  have ia0: "interactive ?init" and st0: "step ?init = 1" by (simp_all add: startup_def)
  have p43: "pressed 43 = (pressed 43)\<lparr>keyResult := Some 43\<rparr>"
    and p45: "pressed 45 = (pressed 43)\<lparr>keyResult := Some 45\<rparr>"
    by (simp_all add: pressed_def)
  from step_ladder [where tmo = 0 and ia = True and mon = False and path = "''a.png''"
      and x = 0 and y = 0 and modTime = 0 and img = "[]" and es = "[pressed 43, pressed 43]"
      and i = 2 and s = ?s and e = "pressed 43"] st ia
  have a: "step (snd (loopBody ?s (pressed 43))) = 20"
    and b: "step (snd (loopBody ?s (pressed 45))) = 5"
    by (simp_all add: ladder_def p43 [symmetric] p45 [symmetric])
  from step_ladder [where s = ?init and ea = "pressed 43" and eb = "pressed 43"
      and ec = "pressed 43" and ed = "pressed 43"] ia0 st0
  have c: "step (snd (loopBody (snd (loopBody (snd (loopBody (snd (loopBody ?init
        (pressed 43))) (pressed 43))) (pressed 43))) (pressed 43))) = 20"
    by (simp add: Let_def p43 [symmetric])
  from st ia a b ia0 st0 c show ?thesis by simp
qed

subsection \<open>Evaluating the loop on given inputs\<close>

lemmas eval_defs = loopBody_def monitorStep_def reloadStep_def inputStep_def sleepStep_def
  startup_def idle_def pressed_def missingFile_def Let_def getFileModificationTime_def
  tolower_def switchKey_def sleepMilliseconds_def mainLoop.simps

subsection \<open>A reload that fails\<close>

text \<open>
  Claim C1, at the input where the code departs from it. A session on \<open>a.png\<close> receives
  \<open>SIGTSTP\<close> in its first iteration. In the second iteration \<open>loadPng\<close> fails: the loop
  pauses 200 ms, and \<open>reload\<close>, cleared at line 315 before the attempt, stays cleared. In the
  third and fourth iterations the file is valid again (\<open>loadPng\<close> would return the image
  \<open>[2]\<close>), but the loop does not call \<open>loadPng\<close> any more: the session goes on (\<open>run\<close>
  holds) with the old image \<open>[1]\<close>, and the new content is not displayed. The comment at
  line 321 says \<open>wait and try again\<close>.
\<close>

theorem failed_reload_not_retried:
  "mainLoop (startup 0 False False ''a.png'' 0 0 100 [1])
     [(idle 100)\<lparr>signals := [SIGTSTP]\<rparr>,
      idle 100,
      (idle 100)\<lparr>loadPngResult := Some [2]\<rparr>,
      (idle 100)\<lparr>loadPngResult := Some [2]\<rparr>]
   = ([[Usleep 10000],
       [LoadPng ''a.png'', Usleep 200000, Usleep 10000],
       [Usleep 10000],
       [Usleep 10000]],
      \<lparr>run = True, reload = False, xOffset = 0, yOffset = 0, step = 1,
       currentTime = 40, lastModCheckTime = 0, lastFileMod = 100,
       timeout = 0, interactive = False, monitorChanges = False,
       imagePath = ''a.png'', image = [1]\<rparr>)"
  by (simp add: eval_defs)

subsection \<open>Keys\<close>

lemma tolower_idem [simp]: "tolower (tolower c) = tolower c"
  by (simp add: tolower_def)

lemma monitorStep_key [simp]: "monitorStep s (e\<lparr>keyResult := k\<rparr>) = monitorStep s e"
  by (simp add: monitorStep_def)

lemma reloadStep_key [simp]: "reloadStep s (e\<lparr>keyResult := k\<rparr>) = reloadStep s e"
  by (simp add: reloadStep_def)

lemma sleepStep_key [simp]: "sleepStep s (e\<lparr>keyResult := k\<rparr>) = sleepStep s e"
  by (simp add: sleepStep_def)

lemma inputStep_tolower:
  "inputStep s (e\<lparr>keyResult := Some (tolower c)\<rparr>) = inputStep s (e\<lparr>keyResult := Some c\<rparr>)"
  by (simp add: inputStep_def)

lemma loopBody_tolower:
  "loopBody s (e\<lparr>keyResult := Some (tolower c)\<rparr>) = loopBody s (e\<lparr>keyResult := Some c\<rparr>)"
  by (simp add: loopBody_def inputStep_tolower)

lemma loopBody_xOffset:
  "xOffset (snd (loopBody s e)) =
     (if interactive s
      then (case keyResult e of None \<Rightarrow> xOffset s
            | Some c \<Rightarrow> xOffset (fst (switchKey (snd (reloadStep (snd (monitorStep s e)) e)) (tolower c))))
      else xOffset s)"
  by (simp add: loopBody_snd inputStep_snd split: option.splits)

lemma switchKey_xOffset:
  "xOffset (fst (switchKey s c)) =
     (if c = 97 then xOffset s - step s else if c = 100 then xOffset s + step s else xOffset s)"
  by (simp add: switchKey_def)

lemma switchKey_yOffset:
  "yOffset (fst (switchKey s c)) =
     (if c = 119 then yOffset s - step s else if c = 115 then yOffset s + step s else yOffset s)"
  by (simp add: switchKey_def)

text \<open>
  Claim C9. An iteration that reads the character \<open>c\<close> has the same trace and leaves the same
  state as one that reads \<open>tolower c\<close>. So \<open>A\<close>, \<open>D\<close>, \<open>W\<close> and \<open>S\<close> (65, 68, 87, 83) do
  what \<open>a\<close>, \<open>d\<close>, \<open>w\<close> and \<open>s\<close> (97, 100, 119, 115) do: in an interactive session they move
  the layer by \<open>step\<close> to the left, to the right, up and down.
\<close>

theorem keys_case_insensitive:
  "loopBody s (e\<lparr>keyResult := Some c\<rparr>) = loopBody s (e\<lparr>keyResult := Some (tolower c)\<rparr>)
   \<and> loopBody s (e\<lparr>keyResult := Some 65\<rparr>) = loopBody s (e\<lparr>keyResult := Some 97\<rparr>)
   \<and> loopBody s (e\<lparr>keyResult := Some 68\<rparr>) = loopBody s (e\<lparr>keyResult := Some 100\<rparr>)
   \<and> loopBody s (e\<lparr>keyResult := Some 87\<rparr>) = loopBody s (e\<lparr>keyResult := Some 119\<rparr>)
   \<and> loopBody s (e\<lparr>keyResult := Some 83\<rparr>) = loopBody s (e\<lparr>keyResult := Some 115\<rparr>)
   \<and> xOffset (snd (loopBody s (e\<lparr>keyResult := Some 65\<rparr>)))
       = (if interactive s then xOffset s - step s else xOffset s)
   \<and> xOffset (snd (loopBody s (e\<lparr>keyResult := Some 68\<rparr>)))
       = (if interactive s then xOffset s + step s else xOffset s)
   \<and> yOffset (snd (loopBody s (e\<lparr>keyResult := Some 87\<rparr>)))
       = (if interactive s then yOffset s - step s else yOffset s)
   \<and> yOffset (snd (loopBody s (e\<lparr>keyResult := Some 83\<rparr>)))
       = (if interactive s then yOffset s + step s else yOffset s)"
proof -
  have lower: "loopBody s (e\<lparr>keyResult := Some c\<rparr>) = loopBody s (e\<lparr>keyResult := Some (tolower c)\<rparr>)"
    for c by (simp add: loopBody_tolower)
  have A: "tolower 65 = 97" and D: "tolower 68 = 100" and W: "tolower 87 = 119"
    and S: "tolower 83 = 115"
    by (simp_all add: tolower_def)
  have moves:
    "xOffset (snd (loopBody s (e\<lparr>keyResult := Some 65\<rparr>)))
       = (if interactive s then xOffset s - step s else xOffset s)"
    "xOffset (snd (loopBody s (e\<lparr>keyResult := Some 68\<rparr>)))
       = (if interactive s then xOffset s + step s else xOffset s)"
    "yOffset (snd (loopBody s (e\<lparr>keyResult := Some 87\<rparr>)))
       = (if interactive s then yOffset s - step s else yOffset s)"
    "yOffset (snd (loopBody s (e\<lparr>keyResult := Some 83\<rparr>)))
       = (if interactive s then yOffset s + step s else yOffset s)"
    by (simp_all add: loopBody_snd inputStep_snd switchKey_xOffset switchKey_yOffset A D W S)
  from lower [of c] lower [of 65] lower [of 68] lower [of 87] lower [of 83] moves
  show ?thesis by (simp only: A D W S)
qed

subsection \<open>Sessions started with \<open>-n\<close>\<close>

lemma no_input_monitor: "list_all (\<lambda>ev. \<not> isInputEvent ev) (fst (monitorStep s e))"
  by (simp add: monitorStep_def Let_def)

lemma no_input_reload: "list_all (\<lambda>ev. \<not> isInputEvent ev) (fst (reloadStep s e))"
  by (simp add: reloadStep_def split: option.splits)

lemma no_input_sleep: "list_all (\<lambda>ev. \<not> isInputEvent ev) (fst (sleepStep s e))"
  by (simp add: sleepStep_def Let_def)

lemma inputStep_non_interactive: "\<not> interactive s \<Longrightarrow> inputStep s e = ([], s)"
  by (simp add: inputStep_def)

lemma loopBody_non_interactive:
  assumes "\<not> interactive s"
  shows "xOffset (snd (loopBody s e)) = xOffset s"
    and "yOffset (snd (loopBody s e)) = yOffset s"
    and "step (snd (loopBody s e)) = step s"
    and "list_all (\<lambda>ev. \<not> isInputEvent ev) (fst (loopBody s e))"
  using assms
  by (simp_all add: loopBody_snd loopBody_fst inputStep_non_interactive
      no_input_monitor no_input_reload no_input_sleep)

lemma mainLoop_non_interactive:
  "\<not> interactive s \<Longrightarrow>
     xOffset (snd (mainLoop s es)) = xOffset s
     \<and> yOffset (snd (mainLoop s es)) = yOffset s
     \<and> step (snd (mainLoop s es)) = step s
     \<and> list_all (list_all (\<lambda>ev. \<not> isInputEvent ev)) (fst (mainLoop s es))"
proof (induction es arbitrary: s)
  case Nil
  then show ?case by simp
next
  case (Cons e es)
  have "\<not> interactive (snd (loopBody s e))" using Cons.prems by simp
  from Cons.IH [OF this] loopBody_non_interactive [OF Cons.prems, of e]
  show ?case by (simp add: mainLoop_fst_Cons mainLoop_snd_Cons)
qed

text \<open>
  Claim C10. In a session that is not interactive, however long it runs and whatever it
  receives, \<open>xOffset\<close>, \<open>yOffset\<close> and \<open>step\<close> keep their values, \<open>keyPressed\<close> is never
  called and no move transaction is opened or submitted: every event of every iteration is a
  \<open>stat\<close>, a \<open>loadPng\<close>, a sleep or the content update of a reload.
\<close>

theorem non_interactive_frame:
  "\<not> interactive s \<Longrightarrow>
     xOffset (snd (mainLoop s es)) = xOffset s
     \<and> yOffset (snd (mainLoop s es)) = yOffset s
     \<and> step (snd (mainLoop s es)) = step s
     \<and> list_all (list_all (\<lambda>ev. \<not> isInputEvent ev)) (fst (mainLoop s es))"
  by (rule mainLoop_non_interactive)

text \<open>
  The theorem at a session started with \<open>-n -x 3 -y 4\<close>: keys are waiting in both
  iterations, a reload is requested in the first and carried out in the second.
\<close>

theorem non_interactive_frame_witness:
  "\<not> interactive (startup 0 False False ''a.png'' 3 4 100 [1])
   \<and> xOffset (snd (mainLoop (startup 0 False False ''a.png'' 3 4 100 [1])
         [(pressed 100)\<lparr>signals := [SIGTSTP]\<rparr>, (pressed 43)\<lparr>loadPngResult := Some [2]\<rparr>])) = 3
   \<and> yOffset (snd (mainLoop (startup 0 False False ''a.png'' 3 4 100 [1])
         [(pressed 100)\<lparr>signals := [SIGTSTP]\<rparr>, (pressed 43)\<lparr>loadPngResult := Some [2]\<rparr>])) = 4
   \<and> step (snd (mainLoop (startup 0 False False ''a.png'' 3 4 100 [1])
         [(pressed 100)\<lparr>signals := [SIGTSTP]\<rparr>, (pressed 43)\<lparr>loadPngResult := Some [2]\<rparr>])) = 1
   \<and> fst (mainLoop (startup 0 False False ''a.png'' 3 4 100 [1])
         [(pressed 100)\<lparr>signals := [SIGTSTP]\<rparr>, (pressed 43)\<lparr>loadPngResult := Some [2]\<rparr>])
       = [[Usleep 10000],
          [LoadPng ''a.png'', ChangeSourceAndUpdateImageLayer [2], Usleep 10000]]"
  using non_interactive_frame [of "startup 0 False False ''a.png'' 3 4 100 [1]"
      "[(pressed 100)\<lparr>signals := [SIGTSTP]\<rparr>, (pressed 43)\<lparr>loadPngResult := Some [2]\<rparr>]"]
  by (simp add: eval_defs)

subsection \<open>Update transactions per iteration\<close>

lemma transactions_append [simp]:
  "transactions k (t @ u) = transactions k t + transactions k u"
  by (simp add: transactions_def)

lemma transactions_monitor [simp]: "transactions k (fst (monitorStep s e)) = 0"
  by (simp add: monitorStep_def transactions_def Let_def)

lemma transactions_reload:
  "transactions k (fst (reloadStep s e)) =
     (if reload s \<and> imagePath s \<noteq> ''-'' \<and> loadPngResult e \<noteq> None then k else 0)"
  by (simp add: reloadStep_def transactions_def split: option.splits)

lemma switchKey_moveLayer:
  "snd (switchKey s c) = (c = 97 \<or> c = 100 \<or> c = 119 \<or> c = 115)"
  by (simp add: switchKey_def)

lemma inputStep_fst:
  "fst (inputStep s e) =
     (if interactive s then
        (case keyResult e of None \<Rightarrow> [KeyPressed]
         | Some c \<Rightarrow>
             if snd (switchKey s (tolower c))
             then [KeyPressed, UpdateStart,
                   MoveImageLayer (xOffset (fst (switchKey s (tolower c))))
                     (yOffset (fst (switchKey s (tolower c)))),
                   UpdateSubmitSync]
             else [KeyPressed])
      else [])"
  by (simp add: inputStep_def Let_def split: option.splits prod.splits)

lemma transactions_input:
  "transactions k (fst (inputStep s e)) = (if layerMoved s e then 1 else 0)"
  by (simp add: inputStep_fst layerMoved_def switchKey_moveLayer transactions_def
      split: option.splits)

lemma transactions_sleep [simp]: "transactions k (fst (sleepStep s e)) = 0"
  by (simp add: sleepStep_def transactions_def Let_def)

lemma layerMoved_cong:
  "interactive s' = interactive s \<Longrightarrow> layerMoved s' e = layerMoved s e"
  by (simp add: layerMoved_def)

lemma transactions_loopBody:
  "transactions k (fst (loopBody s e)) =
     (if contentReplaced s e then k else 0) + (if layerMoved s e then 1 else 0)"
proof -
  let ?s1 = "snd (monitorStep s e)"
  let ?s2 = "snd (reloadStep ?s1 e)"
  have "layerMoved ?s2 e = layerMoved s e"
    by (rule layerMoved_cong) simp
  then show ?thesis
    by (simp add: loopBody_fst transactions_reload transactions_input contentReplaced_def)
qed

text \<open>
  Whatever \<open>changeSourceAndUpdateImageLayer\<close> does, the iterations that change something
  cannot all issue exactly one transaction: if it submits one, an iteration with a reload
  and a move issues two; if it submits another number, an iteration with a reload alone
  issues that number.
\<close>

lemma not_one_transaction_for_any_k:
  "\<exists>s e. transactions k (fst (loopBody s e))
           \<noteq> (if contentReplaced s e \<or> layerMoved s e then 1 else 0)"
proof (cases "k = 1")
  case True
  let ?s = "(startup 0 True False ''a.png'' 0 0 100 [1])\<lparr>reload := True\<rparr>"
  let ?e = "(pressed 100)\<lparr>loadPngResult := Some [2]\<rparr>"
  have "contentReplaced ?s ?e" and "layerMoved ?s ?e"
    by (simp_all add: contentReplaced_def layerMoved_def eval_defs)
  then have "transactions k (fst (loopBody ?s ?e))
      \<noteq> (if contentReplaced ?s ?e \<or> layerMoved ?s ?e then 1 else 0)"
    using True by (simp add: transactions_loopBody)
  then show ?thesis by blast
next
  case False
  let ?s = "(startup 0 False False ''a.png'' 0 0 100 [1])\<lparr>reload := True\<rparr>"
  let ?e = "(idle 100)\<lparr>loadPngResult := Some [2]\<rparr>"
  have "contentReplaced ?s ?e" and "\<not> layerMoved ?s ?e"
    by (simp_all add: contentReplaced_def layerMoved_def eval_defs)
  then have "transactions k (fst (loopBody ?s ?e))
      \<noteq> (if contentReplaced ?s ?e \<or> layerMoved ?s ?e then 1 else 0)"
    using False by (simp add: transactions_loopBody)
  then show ?thesis by blast
qed

text \<open>
  Claim C2, as amended. The loop has no dirty flags and no single commit: each change is
  committed where it is made. In every iteration the loop calls
  \<open>changeSourceAndUpdateImageLayer\<close> once if the reload goes through and not otherwise, and
  after that opens and submits one transaction of its own if a direction key was read and
  none otherwise. With \<open>k\<close> transactions per call of \<open>changeSourceAndUpdateImageLayer\<close>, an
  iteration issues \<open>k\<close> for the content plus 1 for the position: \<open>k + 1\<close> when both changed,
  0 when neither did.
\<close>

theorem transactions_per_iteration:
  "transactions k (fst (loopBody s e)) =
     (if contentReplaced s e then k else 0) + (if layerMoved s e then 1 else 0)"
  by (rule transactions_loopBody)

text \<open>
  Claim C2 as stated fails. A reload is requested in the first iteration; in the second the
  decode succeeds and the key \<open>d\<close> is read: the content update and the move are two separate
  updates, so with a \<open>changeSourceAndUpdateImageLayer\<close> that submits its own transaction
  (\<open>k = 1\<close>) the iteration issues two transactions, not one. Were it to submit none
  (\<open>k = 0\<close>), an iteration that only replaces the content would issue none, not one.
\<close>

theorem content_and_move_two_transactions:
  "fst (mainLoop (startup 0 True False ''a.png'' 0 0 100 [1])
        [(idle 100)\<lparr>signals := [SIGTSTP]\<rparr>,
         (pressed 100)\<lparr>loadPngResult := Some [2]\<rparr>])
      = [[KeyPressed, Usleep 10000],
         [LoadPng ''a.png'', ChangeSourceAndUpdateImageLayer [2],
          KeyPressed, UpdateStart, MoveImageLayer 1 0, UpdateSubmitSync, Usleep 10000]]
   \<and> map (transactions 1)
       (fst (mainLoop (startup 0 True False ''a.png'' 0 0 100 [1])
          [(idle 100)\<lparr>signals := [SIGTSTP]\<rparr>,
           (pressed 100)\<lparr>loadPngResult := Some [2]\<rparr>])) = [0, 2]
   \<and> map (transactions 0)
       (fst (mainLoop (startup 0 False False ''a.png'' 0 0 100 [1])
          [(idle 100)\<lparr>signals := [SIGTSTP]\<rparr>,
           (idle 100)\<lparr>loadPngResult := Some [2]\<rparr>])) = [0, 0]
   \<and> image (snd (mainLoop (startup 0 False False ''a.png'' 0 0 100 [1])
          [(idle 100)\<lparr>signals := [SIGTSTP]\<rparr>,
           (idle 100)\<lparr>loadPngResult := Some [2]\<rparr>])) = [2]"
  by (simp add: eval_defs transactions_def)

subsection \<open>The order within an iteration\<close>

lemma phase_reload: "list_all (\<lambda>ev. phase ev = 1) (fst (reloadStep s e))"
  by (simp add: reloadStep_def sleepMilliseconds_def split: option.splits)

lemma phase_input: "list_all (\<lambda>ev. phase ev = 2) (fst (inputStep s e))"
  by (simp add: inputStep_fst split: option.splits)

lemma sleep_fst [simp]: "fst (sleepStep s e) = [Usleep 10000]"
  by (simp add: sleepStep_def Let_def sleepMilliseconds_def)

lemma sorted_const: "list_all (\<lambda>ev. f ev = c) t \<Longrightarrow> sorted (map f t)"
  by (induction t) (auto simp: list_all_iff)

lemma sorted_phases:
  assumes "list_all (\<lambda>ev. phase ev = 0) t0" "list_all (\<lambda>ev. phase ev = 1) t1"
    "list_all (\<lambda>ev. phase ev = 2) t2"
  shows "sorted (map phase (t0 @ t1 @ t2 @ [Usleep 10000]))"
proof -
  have "sorted (map phase t0)" "sorted (map phase t1)" "sorted (map phase t2)"
    using assms by (auto intro: sorted_const)
  then show ?thesis
    using assms by (auto simp: sorted_append list_all_iff sleepMilliseconds_def)
qed

lemma loopBody_sorted: "sorted (map phase (fst (loopBody s e)))"
proof -
  have "list_all (\<lambda>ev. phase ev = 0) (fst (monitorStep s e))"
    by (simp add: monitorStep_def Let_def)
  then show ?thesis
    unfolding loopBody_fst sleep_fst
    by (rule sorted_phases) (rule phase_reload phase_input)+
qed

lemma loopBody_last: "last (fst (loopBody s e)) = Usleep 10000"
  by (simp add: loopBody_fst)


lemma monitorStep_timeout:
  "monitorStep (s\<lparr>timeout := T\<rparr>) e = (fst (monitorStep s e), (snd (monitorStep s e))\<lparr>timeout := T\<rparr>)"
  by (simp add: monitorStep_def Let_def)

lemma reloadStep_timeout:
  "reloadStep (s\<lparr>timeout := T\<rparr>) e = (fst (reloadStep s e), (snd (reloadStep s e))\<lparr>timeout := T\<rparr>)"
  by (simp add: reloadStep_def split: option.splits)

lemma switchKey_timeout:
  "switchKey (s\<lparr>timeout := T\<rparr>) c = ((fst (switchKey s c))\<lparr>timeout := T\<rparr>, snd (switchKey s c))"
  by (simp add: switchKey_def)

lemma inputStep_timeout:
  "inputStep (s\<lparr>timeout := T\<rparr>) e = (fst (inputStep s e), (snd (inputStep s e))\<lparr>timeout := T\<rparr>)"
  by (simp add: inputStep_def switchKey_timeout Let_def split: option.splits prod.splits)

lemma signalHandler_timeout:
  "signalHandler g (s\<lparr>timeout := T\<rparr>) = (signalHandler g s)\<lparr>timeout := T\<rparr>"
  by (cases g) simp_all

lemma fold_signalHandler_timeout:
  "fold signalHandler gs (s\<lparr>timeout := T\<rparr>) = (fold signalHandler gs s)\<lparr>timeout := T\<rparr>"
  by (induction gs arbitrary: s) (simp_all add: signalHandler_timeout)

lemma sleepStep_timeout:
  "(snd (sleepStep (s\<lparr>timeout := T\<rparr>) e))\<lparr>run := r\<rparr> = (snd (sleepStep s e))\<lparr>run := r, timeout := T\<rparr>"
  by (simp add: sleepStep_def Let_def fold_signalHandler_timeout)

lemma sleepStep_run:
  "run (snd (sleepStep s e)) =
     (run (fold signalHandler (signals e) s) \<and> \<not> (timeout s \<noteq> 0 \<and> timeout s \<le> currentTime s + 10))"
  by (simp add: sleepStep_def Let_def sleepMilliseconds_def)

lemma loopBody_currentTime [simp]:
  "currentTime (snd (loopBody s e)) = currentTime s + 10"
  by (simp add: loopBody_snd sleepStep_def Let_def sleepMilliseconds_def)

lemma loopBody_timeout_trace:
  "fst (loopBody (s\<lparr>timeout := T\<rparr>) e) = fst (loopBody s e)"
  by (simp add: loopBody_fst monitorStep_timeout reloadStep_timeout inputStep_timeout)

lemma loopBody_timeout_state:
  "(snd (loopBody (s\<lparr>timeout := T\<rparr>) e))\<lparr>run := r\<rparr> = (snd (loopBody s e))\<lparr>run := r, timeout := T\<rparr>"
  by (simp add: loopBody_snd monitorStep_timeout reloadStep_timeout inputStep_timeout
      sleepStep_timeout)

lemma loopBody_run:
  "run (snd (loopBody s e)) =
     (run (snd (loopBody (s\<lparr>timeout := 0\<rparr>) e))
      \<and> \<not> (timeout s \<noteq> 0 \<and> timeout s \<le> currentTime s + 10))"
  by (simp add: loopBody_snd monitorStep_timeout reloadStep_timeout inputStep_timeout
      sleepStep_run fold_signalHandler_timeout)

text \<open>
  Claim C3, as amended. The events of every iteration come in the order of the loop body:
  the poll of the modification time, then the reload, then at most one key with its move
  transaction, then the fixed sleep, which is the last call. The timeout is checked after
  the sleep, last in the iteration: the value of \<open>timeout\<close> changes neither the trace of the
  iteration nor any variable but \<open>run\<close>, and \<open>run\<close> is what it would be without a timeout,
  unless \<open>timeout \<noteq> 0\<close> and \<open>currentTime + 10 \<ge> timeout\<close>. In that case \<open>run\<close> is false after
  the iteration, and the loop does nothing more: no poll, no reload, no key, no transaction
  in any later iteration.
\<close>

theorem iteration_order:
  "sorted (map phase (fst (loopBody s e)))
   \<and> last (fst (loopBody s e)) = Usleep 10000
   \<and> fst (loopBody (s\<lparr>timeout := T\<rparr>) e) = fst (loopBody s e)
   \<and> (snd (loopBody (s\<lparr>timeout := T\<rparr>) e))\<lparr>run := r\<rparr>
       = (snd (loopBody s e))\<lparr>run := r, timeout := T\<rparr>
   \<and> run (snd (loopBody s e))
       = (run (snd (loopBody (s\<lparr>timeout := 0\<rparr>) e))
          \<and> \<not> (timeout s \<noteq> 0 \<and> timeout s \<le> currentTime s + 10))
   \<and> (timeout s \<noteq> 0 \<and> timeout s \<le> currentTime s + 10 \<longrightarrow>
        \<not> run (snd (loopBody s e))
        \<and> mainLoop (snd (loopBody s e)) es = ([], snd (loopBody s e)))"
proof (intro conjI impI)
  show "sorted (map phase (fst (loopBody s e)))" by (rule loopBody_sorted)
  show "last (fst (loopBody s e)) = Usleep 10000" by (rule loopBody_last)
  show "fst (loopBody (s\<lparr>timeout := T\<rparr>) e) = fst (loopBody s e)"
    by (rule loopBody_timeout_trace)
  show "(snd (loopBody (s\<lparr>timeout := T\<rparr>) e))\<lparr>run := r\<rparr>
       = (snd (loopBody s e))\<lparr>run := r, timeout := T\<rparr>"
    by (rule loopBody_timeout_state)
  show run: "run (snd (loopBody s e))
       = (run (snd (loopBody (s\<lparr>timeout := 0\<rparr>) e))
          \<and> \<not> (timeout s \<noteq> 0 \<and> timeout s \<le> currentTime s + 10))"
    by (rule loopBody_run)
  assume "timeout s \<noteq> 0 \<and> timeout s \<le> currentTime s + 10"
  with run show stopped: "\<not> run (snd (loopBody s e))" by simp
  then show "mainLoop (snd (loopBody s e)) es = ([], snd (loopBody s e))"
    by (rule mainLoop_stopped)
qed

text \<open>
  The theorem at a session started with \<open>-t 10\<close>, in its first iteration, with the key \<open>d\<close>
  waiting in this iteration and in the next.
\<close>

theorem iteration_order_witness:
  "timeout (startup 10 True False ''a.png'' 0 0 100 [1]) \<noteq> 0
   \<and> timeout (startup 10 True False ''a.png'' 0 0 100 [1])
       \<le> currentTime (startup 10 True False ''a.png'' 0 0 100 [1]) + 10
   \<and> map phase (fst (loopBody (startup 10 True False ''a.png'' 0 0 100 [1]) (pressed 100)))
       = [2, 2, 2, 2, 3]
   \<and> \<not> run (snd (loopBody (startup 10 True False ''a.png'' 0 0 100 [1]) (pressed 100)))
   \<and> mainLoop (snd (loopBody (startup 10 True False ''a.png'' 0 0 100 [1]) (pressed 100)))
         [pressed 100]
       = ([], snd (loopBody (startup 10 True False ''a.png'' 0 0 100 [1]) (pressed 100)))"
  using iteration_order [of "startup 10 True False ''a.png'' 0 0 100 [1]" "pressed 100"
      10 False "[pressed 100]"]
  by (simp add: eval_defs)

text \<open>
  Claim C3 as stated fails. In a session started with \<open>-t 10\<close>, the first iteration reads the
  key \<open>d\<close>, moves the layer and submits the transaction, sleeps, and only then finds
  \<open>currentTime = 10 \<ge> timeout\<close> and clears \<open>run\<close>: the timeout check is the last step of the
  iteration, not the first, and the iteration in which the timeout is reached has processed
  its input and committed.
\<close>

theorem timeout_checked_after_input:
  "loopBody (startup 10 True False ''a.png'' 0 0 100 [1]) (pressed 100)
   = ([KeyPressed, UpdateStart, MoveImageLayer 1 0, UpdateSubmitSync, Usleep 10000],
      \<lparr>run = False, reload = False, xOffset = 1, yOffset = 0, step = 1,
       currentTime = 10, lastModCheckTime = 0, lastFileMod = 100,
       timeout = 10, interactive = True, monitorChanges = False,
       imagePath = ''a.png'', image = [1]\<rparr>)"
  by (simp add: eval_defs)

subsection \<open>Sessions that read the image from standard input\<close>

lemma reloadStep_stdin:
  "imagePath s = ''-'' \<Longrightarrow> reloadStep s e = ([], s\<lparr>reload := False\<rparr>)"
  by (simp add: reloadStep_def)

lemma no_reload_monitor: "list_all (\<lambda>ev. \<not> isReloadEvent ev) (fst (monitorStep s e))"
  by (simp add: monitorStep_def Let_def)

lemma no_reload_input: "list_all (\<lambda>ev. \<not> isReloadEvent ev) (fst (inputStep s e))"
  by (simp add: inputStep_fst split: option.splits)

lemma loopBody_stdin:
  assumes "imagePath s = ''-''"
  shows "list_all (\<lambda>ev. \<not> isReloadEvent ev) (fst (loopBody s e))"
    and "image (snd (loopBody s e)) = image s"
proof -
  have p: "imagePath (snd (monitorStep s e)) = ''-''" using assms by simp
  show "list_all (\<lambda>ev. \<not> isReloadEvent ev) (fst (loopBody s e))"
    by (simp add: loopBody_fst reloadStep_stdin [OF p] no_reload_monitor no_reload_input)
  show "image (snd (loopBody s e)) = image s"
    by (simp add: loopBody_snd reloadStep_stdin [OF p])
qed

lemma mainLoop_stdin:
  "imagePath s = ''-'' \<Longrightarrow>
     list_all (list_all (\<lambda>ev. \<not> isReloadEvent ev)) (fst (mainLoop s es))
     \<and> image (snd (mainLoop s es)) = image s"
proof (induction es arbitrary: s)
  case Nil
  then show ?case by simp
next
  case (Cons e es)
  have "imagePath (snd (loopBody s e)) = ''-''" using Cons.prems by simp
  from Cons.IH [OF this] loopBody_stdin [OF Cons.prems, of e]
  show ?case by (simp add: mainLoop_fst_Cons mainLoop_snd_Cons)
qed

text \<open>
  Claim C5, as amended. In a session whose image path is \<open>-\<close>, the reload flag can be set
  (by \<open>SIGTSTP\<close>, and by the poll of \<open>-m\<close>, which still runs), but it has no effect: the
  check at line 314 clears it without a decode attempt, no iteration calls \<open>loadPng\<close> or
  \<open>changeSourceAndUpdateImageLayer\<close>, and the image stays the one read at the start.
\<close>

theorem stdin_never_reloads:
  "imagePath s = ''-'' \<Longrightarrow>
     list_all (list_all (\<lambda>ev. \<not> isReloadEvent ev)) (fst (mainLoop s es))
     \<and> image (snd (mainLoop s es)) = image s
     \<and> reloadStep s e = ([], s\<lparr>reload := False\<rparr>)"
  using mainLoop_stdin [of s es] reloadStep_stdin [of s e] by simp

text \<open>
  The theorem at a session started with \<open>-n -m -\<close>: \<open>SIGTSTP\<close> arrives in the first iteration,
  and a decodable file would be there in the second.
\<close>

theorem stdin_never_reloads_witness:
  "imagePath (startup 0 False True ''-'' 0 0 0 [1]) = ''-''
   \<and> fst (mainLoop (startup 0 False True ''-'' 0 0 0 [1])
        [(idle 0)\<lparr>signals := [SIGTSTP]\<rparr>, (idle 0)\<lparr>loadPngResult := Some [2]\<rparr>])
       = [[Usleep 10000], [Usleep 10000]]
   \<and> image (snd (mainLoop (startup 0 False True ''-'' 0 0 0 [1])
        [(idle 0)\<lparr>signals := [SIGTSTP]\<rparr>, (idle 0)\<lparr>loadPngResult := Some [2]\<rparr>])) = [1]
   \<and> reloadStep ((startup 0 False True ''-'' 0 0 0 [1])\<lparr>reload := True\<rparr>)
        ((idle 0)\<lparr>loadPngResult := Some [2]\<rparr>)
       = ([], startup 0 False True ''-'' 0 0 0 [1])"
  using stdin_never_reloads [of "startup 0 False True ''-'' 0 0 0 [1]"
      "[(idle 0)\<lparr>signals := [SIGTSTP]\<rparr>, (idle 0)\<lparr>loadPngResult := Some [2]\<rparr>]"]
  by (simp add: eval_defs)

text \<open>
  Claim C5 as stated fails. In a session on standard input, \<open>SIGTSTP\<close> sets \<open>reload\<close> (the
  handler does not know the source), and the flag is still set when the iteration in which
  the signal arrived ends; with \<open>-m\<close>, the poll calls \<open>stat\<close> on the path \<open>-\<close> and sets
  \<open>reload\<close> when the result differs from \<open>lastFileMod\<close>, which is 0 for standard input.
\<close>

theorem stdin_reload_flag_set:
  "imagePath (startup 0 False True ''-'' 0 0 0 [1]) = ''-''
   \<and> reload (signalHandler SIGTSTP (startup 0 False True ''-'' 0 0 0 [1]))
   \<and> reload (snd (mainLoop (startup 0 False True ''-'' 0 0 0 [1])
        [(idle 0)\<lparr>signals := [SIGTSTP]\<rparr>]))
   \<and> reload (snd (monitorStep ((startup 0 False True ''-'' 0 0 0 [1])\<lparr>currentTime := 1000\<rparr>)
        (idle 1700000000)))"
  by (simp add: eval_defs)

subsection \<open>The timeout\<close>

lemma fold_signalHandler_run:
  "run (fold signalHandler gs s) = (run s \<and> SIGINT \<notin> set gs \<and> SIGTERM \<notin> set gs)"
proof (induction gs arbitrary: s)
  case Nil
  then show ?case by simp
next
  case (Cons g gs)
  then show ?case by (cases g) auto
qed

lemma switchKey_run: "run (fst (switchKey s c)) = (run s \<and> c \<noteq> 27)"
  by (simp add: switchKey_def)

lemma loopBody_run_stop:
  "run (snd (loopBody s e)) =
     (run s \<and> \<not> stopRequested (interactive s) e
      \<and> \<not> (timeout s \<noteq> 0 \<and> timeout s \<le> currentTime s + 10))"
  by (auto simp add: loopBody_snd sleepStep_run fold_signalHandler_run inputStep_snd
      switchKey_run stopRequested_def split: option.splits)

lemma unat_plus_10:
  assumes "unat (w :: 32 word) = 10 * j" and "10 * Suc j \<le> 4294967290"
  shows "unat (w + 10) = 10 * Suc j"
proof -
  have "unat (w + 10) = (unat w + unat (10 :: 32 word)) mod 2 ^ LENGTH(32)"
    by (rule unat_word_ariths)
  also have "\<dots> = (10 * j + 10) mod 4294967296"
    using assms(1) by simp
  also have "\<dots> = 10 * j + 10"
    using assms(2) by (intro mod_less) simp
  finally show ?thesis by simp
qed

lemma timeout_run:
  assumes "run s" and "timeout s = T" and "unat (currentTime s) = 10 * j"
    and "10 * j < unat T" and "unat T \<le> 4294967290"
    and "unat T \<le> 10 * N" and "10 * N < unat T + 10"
    and "list_all (\<lambda>e. \<not> stopRequested (interactive s) e) es"
  shows "run (snd (mainLoop s es)) = (10 * (j + length es) < unat T)
         \<and> length (fst (mainLoop s es)) = min (length es) (N - j)"
  using assms
proof (induction es arbitrary: s j)
  case Nil
  then show ?case by simp
next
  case (Cons e es)
  let ?s1 = "snd (loopBody s e)"
  have T0: "timeout s \<noteq> 0" using Cons.prems(2,4) by (auto simp: unat_eq_0)
  have "10 * j < 4294967290" using Cons.prems(4,5) by linarith
  then have le: "10 * Suc j \<le> 4294967290" by simp
  have ct: "unat (currentTime ?s1) = 10 * Suc j"
    using unat_plus_10 [OF Cons.prems(3) le] by simp
  have hit: "(timeout s \<le> currentTime s + 10) = (unat T \<le> 10 * Suc j)"
    using unat_plus_10 [OF Cons.prems(3) le] Cons.prems(2) by (simp add: word_le_nat_alt)
  have ns: "\<not> stopRequested (interactive s) e"
    and rest: "list_all (\<lambda>e. \<not> stopRequested (interactive ?s1) e) es"
    using Cons.prems(8) by simp_all
  have r1: "run ?s1 = (10 * Suc j < unat T)"
    using Cons.prems(1) T0 hit ns by (simp add: loopBody_run_stop not_le)
  show ?case
  proof (cases "run ?s1")
    case True
    have lt: "10 * Suc j < unat T" using True r1 by simp
    have t1: "timeout ?s1 = T" using Cons.prems(2) by simp
    have IH: "run (snd (mainLoop ?s1 es)) = (10 * (Suc j + length es) < unat T)
         \<and> length (fst (mainLoop ?s1 es)) = min (length es) (N - Suc j)"
      by (rule Cons.IH [OF True t1 ct lt Cons.prems(5,6,7) rest])
    have "10 * Suc j < 10 * N" using lt Cons.prems(6) by (rule less_le_trans)
    then have "Suc j < N" by simp
    then have "Suc (min (length es) (N - Suc j)) = min (Suc (length es)) (N - j)"
      by linarith
    with IH show ?thesis
      using Cons.prems(1) by (simp add: mainLoop_fst_Cons mainLoop_snd_Cons)
  next
    case False
    then have ge: "unat T \<le> 10 * Suc j" using r1 by simp
    have "10 * j < 10 * N" using Cons.prems(4,6) by (rule less_le_trans)
    then have "j < N" by simp
    moreover have "10 * N < 10 * (j + 2)" using ge Cons.prems(7) by simp
    then have "N < j + 2" by simp
    ultimately have "N - j = 1" by linarith
    moreover have "\<not> 10 * (j + length (e # es)) < unat T" using ge by simp
    ultimately show ?thesis
      using False Cons.prems(1)
      by (simp add: mainLoop_fst_Cons mainLoop_snd_Cons mainLoop_stopped)
  qed
qed


lemma no_timeout_run:
  assumes "run s" and "timeout s = 0"
    and "list_all (\<lambda>e. \<not> stopRequested (interactive s) e) es"
  shows "run (snd (mainLoop s es)) \<and> length (fst (mainLoop s es)) = length es"
  using assms
proof (induction es arbitrary: s)
  case Nil
  then show ?case by simp
next
  case (Cons e es)
  let ?s1 = "snd (loopBody s e)"
  have "run ?s1" using Cons.prems by (simp add: loopBody_run_stop)
  moreover have "timeout ?s1 = 0" using Cons.prems by simp
  moreover have "list_all (\<lambda>e. \<not> stopRequested (interactive ?s1) e) es"
    using Cons.prems by simp
  ultimately have "run (snd (mainLoop ?s1 es)) \<and> length (fst (mainLoop ?s1 es)) = length es"
    by (rule Cons.IH)
  then show ?case
    using Cons.prems(1) by (simp add: mainLoop_fst_Cons mainLoop_snd_Cons)
qed

lemma max_word_not_even:
  assumes "even (w :: 32 word)"
  shows "\<not> (- 1 \<le> w + 10)"
proof
  assume "- 1 \<le> w + 10"
  then have eq: "w + 10 = - 1" by (simp add: word_order.extremum_unique)
  have "even (w + 10)" using assms by simp
  then have "even (- 1 :: 32 word)" unfolding eq .
  then show False by simp
qed

lemma max_timeout_run:
  assumes "run s" and "timeout s = - 1" and "even (currentTime s)"
    and "list_all (\<lambda>e. \<not> stopRequested (interactive s) e) es"
  shows "run (snd (mainLoop s es)) \<and> length (fst (mainLoop s es)) = length es"
  using assms
proof (induction es arbitrary: s)
  case Nil
  then show ?case by simp
next
  case (Cons e es)
  let ?s1 = "snd (loopBody s e)"
  have "\<not> (timeout s \<le> currentTime s + 10)"
    using max_word_not_even [OF Cons.prems(3)] Cons.prems(2) by simp
  then have "run ?s1" using Cons.prems by (simp add: loopBody_run_stop)
  moreover have "timeout ?s1 = - 1" using Cons.prems by simp
  moreover have "even (currentTime ?s1)" using Cons.prems(3) by simp
  moreover have "list_all (\<lambda>e. \<not> stopRequested (interactive ?s1) e) es"
    using Cons.prems by simp
  ultimately have "run (snd (mainLoop ?s1 es)) \<and> length (fst (mainLoop ?s1 es)) = length es"
    by (rule Cons.IH)
  then show ?case
    using Cons.prems(1) by (simp add: mainLoop_fst_Cons mainLoop_snd_Cons)
qed

lemma idle_no_stop [simp]: "\<not> stopRequested ia (idle m)"
  by (simp add: stopRequested_def idle_def)

lemma list_all_replicate_idle [simp]:
  "list_all (\<lambda>e. \<not> stopRequested ia e) (replicate n (idle m))"
  by (simp add: list_all_iff)

lemma startup_fields [simp]:
  "run (startup T ia mon path x y m img)"
  "timeout (startup T ia mon path x y m img) = T"
  "currentTime (startup T ia mon path x y m img) = 0"
  "interactive (startup T ia mon path x y m img) = ia"
  by (simp_all add: startup_def)

lemma timeout_from_startup:
  assumes "0 < T" and "T \<le> 4294967290"
    and "list_all (\<lambda>e. \<not> stopRequested ia e) es"
  shows "run (snd (mainLoop (startup T ia mon path x y m img) es)) = (10 * length es < unat T)
     \<and> length (fst (mainLoop (startup T ia mon path x y m img) es))
        = min (length es) ((unat T + 9) div 10)"
proof -
  let ?s = "startup T ia mon path x y m img"
  have pos: "10 * 0 < unat T" using assms(1) by (simp add: unat_gt_0)
  have bound: "unat T \<le> 4294967290" using assms(2) by (simp add: word_le_nat_alt)
  have N1: "unat T \<le> 10 * ((unat T + 9) div 10)" by presburger
  have N2: "10 * ((unat T + 9) div 10) < unat T + 10" by presburger
  have "run (snd (mainLoop ?s es)) = (10 * (0 + length es) < unat T)
         \<and> length (fst (mainLoop ?s es)) = min (length es) ((unat T + 9) div 10 - 0)"
    using assms(3) by (intro timeout_run [OF _ _ _ pos bound N1 N2]) simp_all
  then show ?thesis by simp
qed

text \<open>
  Claim C7, as amended. For every timeout \<open>T\<close> with \<open>0 < T \<le> 4294967290\<close> (the largest multiple
  of 10 below \<open>2^32\<close>) and every run of the loop in which nothing else stops it: after \<open>n\<close>
  iterations' worth of inputs the loop is still running if and only if \<open>10 * n < T\<close>, and it
  has executed \<open>min n \<lceil>T / 10\<rceil>\<close> iterations. So \<open>run\<close> becomes false in the first iteration
  at whose end the accumulated time \<open>10 * n\<close> is at least \<open>T\<close>, and in no earlier one. With
  \<open>T = 50\<close> and idle iterations the loop is running after 4 iterations and stops after
  exactly 5. With \<open>T = 0\<close> the loop runs as long as nothing else stops it.
\<close>

theorem timeout_stops_loop:
  "(0 < T \<and> T \<le> 4294967290 \<and> list_all (\<lambda>e. \<not> stopRequested ia e) es \<longrightarrow>
      run (snd (mainLoop (startup T ia mon path x y m img) es)) = (10 * length es < unat T)
      \<and> length (fst (mainLoop (startup T ia mon path x y m img) es))
         = min (length es) ((unat T + 9) div 10))
   \<and> run (snd (mainLoop (startup 50 ia mon path x y m img) (replicate 4 (idle m'))))
   \<and> \<not> run (snd (mainLoop (startup 50 ia mon path x y m img) (replicate (5 + n) (idle m'))))
   \<and> length (fst (mainLoop (startup 50 ia mon path x y m img) (replicate (5 + n) (idle m')))) = 5
   \<and> (list_all (\<lambda>e. \<not> stopRequested ia e) es \<longrightarrow>
        run (snd (mainLoop (startup 0 ia mon path x y m img) es))
        \<and> length (fst (mainLoop (startup 0 ia mon path x y m img) es)) = length es)"
proof (intro conjI impI)
  assume a: "0 < T \<and> T \<le> 4294967290 \<and> list_all (\<lambda>e. \<not> stopRequested ia e) es"
  then have *: "run (snd (mainLoop (startup T ia mon path x y m img) es)) = (10 * length es < unat T)
     \<and> length (fst (mainLoop (startup T ia mon path x y m img) es))
        = min (length es) ((unat T + 9) div 10)"
    by (intro timeout_from_startup) simp_all
  from * show "run (snd (mainLoop (startup T ia mon path x y m img) es)) = (10 * length es < unat T)"
    by simp
  from * show "length (fst (mainLoop (startup T ia mon path x y m img) es))
         = min (length es) ((unat T + 9) div 10)" by simp
next
  have fifty: "(0 :: 32 word) < 50" "(50 :: 32 word) \<le> 4294967290" by simp_all
  note t = timeout_from_startup [OF fifty list_all_replicate_idle,
      where ia = ia and m1 = m' and mon = mon and path = path and x = x and y = y and m = m
        and img = img]
  from t [of 4] show "run (snd (mainLoop (startup 50 ia mon path x y m img) (replicate 4 (idle m'))))"
    by simp
  from t [of "5 + n"]
  show "\<not> run (snd (mainLoop (startup 50 ia mon path x y m img) (replicate (5 + n) (idle m'))))"
    by simp
  from t [of "5 + n"]
  show "length (fst (mainLoop (startup 50 ia mon path x y m img) (replicate (5 + n) (idle m')))) = 5"
    by simp
next
  assume a: "list_all (\<lambda>e. \<not> stopRequested ia e) es"
  have *: "run (snd (mainLoop (startup 0 ia mon path x y m img) es))
        \<and> length (fst (mainLoop (startup 0 ia mon path x y m img) es)) = length es"
    using a by (intro no_timeout_run) simp_all
  from * show "run (snd (mainLoop (startup 0 ia mon path x y m img) es))" by simp
  from * show "length (fst (mainLoop (startup 0 ia mon path x y m img) es)) = length es" by simp
qed

text \<open>
  The theorem at a session started with \<open>-t 25\<close> and at one without timeout, both
  interactive, on four iterations that read \<open>d\<close>, nothing, a reload signal and \<open>+\<close>.
\<close>

theorem timeout_stops_loop_witness:
  "(0 :: 32 word) < 25 \<and> (25 :: 32 word) \<le> 4294967290
   \<and> list_all (\<lambda>e. \<not> stopRequested True e)
        [pressed 100, idle 5, (idle 5)\<lparr>signals := [SIGTSTP]\<rparr>, pressed 43]
   \<and> \<not> run (snd (mainLoop (startup 25 True False ''a.png'' 0 0 5 [1])
        [pressed 100, idle 5, (idle 5)\<lparr>signals := [SIGTSTP]\<rparr>, pressed 43]))
   \<and> length (fst (mainLoop (startup 25 True False ''a.png'' 0 0 5 [1])
        [pressed 100, idle 5, (idle 5)\<lparr>signals := [SIGTSTP]\<rparr>, pressed 43])) = 3
   \<and> run (snd (mainLoop (startup 0 True False ''a.png'' 0 0 5 [1])
        [pressed 100, idle 5, (idle 5)\<lparr>signals := [SIGTSTP]\<rparr>, pressed 43]))
   \<and> length (fst (mainLoop (startup 0 True False ''a.png'' 0 0 5 [1])
        [pressed 100, idle 5, (idle 5)\<lparr>signals := [SIGTSTP]\<rparr>, pressed 43])) = 4"
  using timeout_stops_loop [where T = 25 and ia = True and mon = False and path = "''a.png''"
      and x = 0 and y = 0 and m = 5 and img = "[1]"
      and es = "[pressed 100, idle 5, (idle 5)\<lparr>signals := [SIGTSTP]\<rparr>, pressed 43]"]
  by (simp add: stopRequested_def idle_def pressed_def tolower_def)

text \<open>
  Claim C7 as stated fails for the timeouts above 4294967290. \<open>currentTime\<close> is a
  \<open>uint32_t\<close> that grows by 10 per iteration and wraps around; it is always even, so it never
  reaches \<open>timeout = 4294967295\<close> (what \<open>-t -1\<close> gives). After 429496730 idle iterations
  4294967300 ms have accumulated, which is more than the timeout, and the loop is still
  running.
\<close>

theorem timeout_missed_by_wrap_around:
  "run (snd (mainLoop (startup 4294967295 False False ''a.png'' 0 0 100 [1])
       (replicate 429496730 (idle 100))))
   \<and> length (fst (mainLoop (startup 4294967295 False False ''a.png'' 0 0 100 [1])
       (replicate 429496730 (idle 100)))) = 429496730
   \<and> unat (4294967295 :: 32 word) \<le> 10 * 429496730"
proof -
  have "run (snd (mainLoop (startup 4294967295 False False ''a.png'' 0 0 100 [1])
       (replicate 429496730 (idle 100))))
   \<and> length (fst (mainLoop (startup 4294967295 False False ''a.png'' 0 0 100 [1])
       (replicate 429496730 (idle 100)))) = length (replicate 429496730 (idle 100))"
    by (rule max_timeout_run) simp_all
  then show ?thesis by simp
qed

subsection \<open>The position as a signed sum\<close>

lemma keysRead_Nil [simp]: "keysRead s [] = []"
  by (simp add: keysRead_def)

lemma keysRead_Cons:
  "keysRead s (e # es) =
     (if run s
      then (case keyResult e of None \<Rightarrow> keysRead (snd (loopBody s e)) es
            | Some c \<Rightarrow> c # keysRead (snd (loopBody s e)) es)
      else [])"
  by (simp add: keysRead_def mainLoop_fst_Cons split: option.splits)

lemma ladder_sint:
  assumes "st \<in> set ladder"
  shows "sint st = 1 \<and> st = 1 \<or> sint st = 5 \<and> st = 5 \<or> sint st = 10 \<and> st = 10
         \<or> sint st = 20 \<and> st = 20"
  using assms by (auto simp: ladder_def)

lemma loopBody_yOffset:
  "yOffset (snd (loopBody s e)) =
     (if interactive s
      then (case keyResult e of None \<Rightarrow> yOffset s
            | Some c \<Rightarrow> yOffset (fst (switchKey (snd (reloadStep (snd (monitorStep s e)) e)) (tolower c))))
      else yOffset s)"
  by (simp add: loopBody_snd inputStep_snd split: option.splits)

lemma tolower_cases:
  "(tolower c = 27) = (c = 27)"
  "(tolower c = 97) = (c = 97 \<or> c = 65)"
  "(tolower c = 100) = (c = 100 \<or> c = 68)"
  "(tolower c = 119) = (c = 119 \<or> c = 87)"
  "(tolower c = 115) = (c = 115 \<or> c = 83)"
  "(tolower c = 43) = (c = 43)"
  "(tolower c = 45) = (c = 45)"
  by (auto simp: tolower_def)

lemma loopBody_key_x:
  assumes "interactive s" and "keyResult e = Some c" and "step s \<in> set ladder"
  shows "xOffset (snd (loopBody s e))
         = xOffset s + word_of_int (fst (moveTerm (sint (step s)) (editOf c)))"
  using assms(1,2)
  by (simp add: loopBody_xOffset switchKey_xOffset tolower_cases editOf_def)

lemma loopBody_key_y:
  assumes "interactive s" and "keyResult e = Some c" and "step s \<in> set ladder"
  shows "yOffset (snd (loopBody s e))
         = yOffset s + word_of_int (snd (moveTerm (sint (step s)) (editOf c)))"
  using assms(1,2)
  by (simp add: loopBody_yOffset switchKey_yOffset tolower_cases editOf_def)

lemma loopBody_key_step:
  assumes "interactive s" and "keyResult e = Some c" and "step s \<in> set ladder"
  shows "sint (step (snd (loopBody s e))) = stepAfter (sint (step s)) (editOf c)"
  using assms(1,2) ladder_sint [OF assms(3)]
  by (auto simp add: loopBody_step switchKey_def tolower_cases editOf_def)

lemma loopBody_nokey:
  assumes "keyResult e = None"
  shows "xOffset (snd (loopBody s e)) = xOffset s"
    and "yOffset (snd (loopBody s e)) = yOffset s"
    and "step (snd (loopBody s e)) = step s"
  using assms by (simp_all add: loopBody_xOffset loopBody_yOffset loopBody_step)

lemma mainLoop_signedSum:
  assumes "interactive s" and "step s \<in> set ladder"
  shows "xOffset (snd (mainLoop s es))
           = xOffset s + word_of_int (fst (signedSum (sint (step s)) (map editOf (keysRead s es))))
         \<and> yOffset (snd (mainLoop s es))
           = yOffset s + word_of_int (snd (signedSum (sint (step s)) (map editOf (keysRead s es))))"
  using assms
proof (induction es arbitrary: s)
  case Nil
  then show ?case by simp
next
  case (Cons e es)
  let ?s1 = "snd (loopBody s e)"
  have ia1: "interactive ?s1" using Cons.prems(1) by simp
  have l1: "step ?s1 \<in> set ladder" using Cons.prems(2) by (rule loopBody_ladder)
  note IH = Cons.IH [OF ia1 l1]
  show ?case
  proof (cases "run s")
    case False
    then show ?thesis by (simp add: keysRead_Cons mainLoop_snd_Cons)
  next
    case True
    show ?thesis
    proof (cases "keyResult e")
      case None
      with True IH show ?thesis
        by (simp add: keysRead_Cons mainLoop_snd_Cons loopBody_nokey)
    next
      case (Some c)
      note kx = loopBody_key_x [OF Cons.prems(1) Some Cons.prems(2)]
      note ky = loopBody_key_y [OF Cons.prems(1) Some Cons.prems(2)]
      note ks = loopBody_key_step [OF Cons.prems(1) Some Cons.prems(2)]
      from True Some IH show ?thesis
        by (simp add: keysRead_Cons mainLoop_snd_Cons kx ky ks)
    qed
  qed
qed

lemma sint_plus_in_range:
  assumes "- (2 ^ 31) \<le> sint (a :: 32 word) + k" and "sint a + k < 2 ^ 31"
  shows "sint (a + word_of_int k) = sint a + k"
proof -
  have "a + word_of_int k = word_of_int (sint a + k)" by simp
  then have "sint (a + word_of_int k) = signed_take_bit (LENGTH(32) - 1) (sint a + k)"
    by (simp only: sint_sbintrunc')
  also have "\<dots> = sint a + k"
    using assms by (simp add: signed_take_bit_int_eq_self)
  finally show ?thesis .
qed


text \<open>
  Claim C8. In an interactive session, for every run of the loop and whatever else the
  iterations receive, the final position is the initial position plus the signed sum over
  the keys read, where each move contributes \<open>+step\<close> or \<open>-step\<close> with the value \<open>step\<close> has
  when the move is applied, so that a step change affects the later moves only. The sum is
  the specification's, over the integers; the equation holds in the arithmetic of
  \<open>int32_t\<close>, and between the integer values whenever the sum stays within \<open>int32_t\<close>
  (beyond that the C addition overflows).
\<close>

theorem position_is_signed_sum:
  "interactive s \<Longrightarrow> step s \<in> set ladder \<Longrightarrow>
     xOffset (snd (mainLoop s es))
       = xOffset s + word_of_int (fst (signedSum (sint (step s)) (map editOf (keysRead s es))))
     \<and> yOffset (snd (mainLoop s es))
       = yOffset s + word_of_int (snd (signedSum (sint (step s)) (map editOf (keysRead s es))))
     \<and> (- (2 ^ 31) \<le> sint (xOffset s) + fst (signedSum (sint (step s)) (map editOf (keysRead s es)))
        \<and> sint (xOffset s) + fst (signedSum (sint (step s)) (map editOf (keysRead s es))) < 2 ^ 31
        \<longrightarrow> sint (xOffset (snd (mainLoop s es)))
            = sint (xOffset s) + fst (signedSum (sint (step s)) (map editOf (keysRead s es))))
     \<and> (- (2 ^ 31) \<le> sint (yOffset s) + snd (signedSum (sint (step s)) (map editOf (keysRead s es)))
        \<and> sint (yOffset s) + snd (signedSum (sint (step s)) (map editOf (keysRead s es))) < 2 ^ 31
        \<longrightarrow> sint (yOffset (snd (mainLoop s es)))
            = sint (yOffset s) + snd (signedSum (sint (step s)) (map editOf (keysRead s es))))"
proof -
  assume ia: "interactive s" and st: "step s \<in> set ladder"
  let ?d = "signedSum (sint (step s)) (map editOf (keysRead s es))"
  have x: "xOffset (snd (mainLoop s es)) = xOffset s + word_of_int (fst ?d)"
    and y: "yOffset (snd (mainLoop s es)) = yOffset s + word_of_int (snd ?d)"
    using mainLoop_signedSum [OF ia st, of es] by simp_all
  have xi: "sint (xOffset (snd (mainLoop s es))) = sint (xOffset s) + fst ?d"
    if "- (2 ^ 31) \<le> sint (xOffset s) + fst ?d \<and> sint (xOffset s) + fst ?d < 2 ^ 31"
    unfolding x using that by (intro sint_plus_in_range) simp_all
  have yi: "sint (yOffset (snd (mainLoop s es))) = sint (yOffset s) + snd ?d"
    if "- (2 ^ 31) \<le> sint (yOffset s) + snd ?d \<and> sint (yOffset s) + snd ?d < 2 ^ 31"
    unfolding y using that by (intro sint_plus_in_range) simp_all
  from x y xi yi show ?thesis by blast
qed

text \<open>
  The theorem at a session started with \<open>-x 100 -y 200\<close> that reads \<open>d\<close>, \<open>+\<close>, \<open>W\<close>,
  nothing, \<open>+\<close>, \<open>a\<close> and \<open>s\<close>: the moves are by 1, 5, 10 and 10.
\<close>

theorem position_is_signed_sum_witness:
  "interactive (startup 0 True False ''a.png'' 100 200 5 [1])
   \<and> step (startup 0 True False ''a.png'' 100 200 5 [1]) \<in> set ladder
   \<and> map editOf (keysRead (startup 0 True False ''a.png'' 100 200 5 [1])
        [pressed 100, pressed 43, pressed 87, idle 5, pressed 43, pressed 97, pressed 115])
       = [MoveRight, StepUp, MoveUp, StepUp, MoveLeft, MoveDown]
   \<and> signedSum 1 [MoveRight, StepUp, MoveUp, StepUp, MoveLeft, MoveDown] = (- 9, 5)
   \<and> sint (xOffset (snd (mainLoop (startup 0 True False ''a.png'' 100 200 5 [1])
        [pressed 100, pressed 43, pressed 87, idle 5, pressed 43, pressed 97, pressed 115]))) = 91
   \<and> sint (yOffset (snd (mainLoop (startup 0 True False ''a.png'' 100 200 5 [1])
        [pressed 100, pressed 43, pressed 87, idle 5, pressed 43, pressed 97, pressed 115]))) = 205"
proof -
  let ?s = "startup 0 True False ''a.png'' 100 200 5 [1]"
  let ?es = "[pressed 100, pressed 43, pressed 87, idle 5, pressed 43, pressed 97, pressed 115]"
  have ia: "interactive ?s" and st: "step ?s \<in> set ladder" and s1: "sint (step ?s) = 1"
    and x0: "sint (xOffset ?s) = 100" and y0: "sint (yOffset ?s) = 200"
    by (simp_all add: startup_def ladder_def)
  have keys: "map editOf (keysRead ?s ?es)
      = [MoveRight, StepUp, MoveUp, StepUp, MoveLeft, MoveDown]"
    by (simp add: keysRead_def eval_defs editOf_def)
  have sum: "signedSum 1 [MoveRight, StepUp, MoveUp, StepUp, MoveLeft, MoveDown] = (- 9, 5)"
    by simp
  from position_is_signed_sum [OF ia st, of ?es]
  have "sint (xOffset (snd (mainLoop ?s ?es))) = 91"
    and "sint (yOffset (snd (mainLoop ?s ?es))) = 205"
    unfolding keys s1 sum x0 y0 by (simp_all add: startup_def)
  with ia st keys sum show ?thesis by simp
qed

subsection \<open>A modification-time query that fails\<close>

text \<open>
  A session started with \<open>-n -m\<close> on an existing file first polls the modification time in
  its 101st iteration: the 100 iterations before only sleep, and leave \<open>currentTime = 1000\<close>.
\<close>

lemma mainLoop_append:
  "mainLoop s (es @ es') =
     (fst (mainLoop s es) @ fst (mainLoop (snd (mainLoop s es)) es'),
      snd (mainLoop (snd (mainLoop s es)) es'))"
proof (induction es arbitrary: s)
  case Nil
  then show ?case by simp
next
  case (Cons e es)
  show ?case
  proof (cases "run s")
    case True
    then show ?thesis
      using Cons.IH [of "snd (loopBody s e)"]
      by (simp add: prod_eq_iff mainLoop_fst_Cons mainLoop_snd_Cons)
  next
    case False
    then show ?thesis by (simp add: mainLoop_stopped)
  qed
qed

lemma before_first_poll:
  assumes "unat (w :: 32 word) = 10 * j" and "j < 100"
  shows "\<not> (1000 \<le> w)" and "unat (w + 10) = 10 * Suc j"
proof -
  show "\<not> (1000 \<le> w)" using assms by (simp add: word_le_nat_alt)
  show "unat (w + 10) = 10 * Suc j"
    using assms by (intro unat_plus_10) simp_all
qed

lemma idle_before_first_poll:
  assumes "unat (w :: 32 word) = 10 * j" and "j + n \<le> 100"
  shows "\<exists>w'. unat w' = 10 * (j + n) \<and>
     mainLoop ((startup 0 False True ''a.png'' x y m img)\<lparr>currentTime := w\<rparr>)
        (replicate n (idle m))
     = (replicate n [Usleep 10000],
        (startup 0 False True ''a.png'' x y m img)\<lparr>currentTime := w'\<rparr>)"
  using assms
proof (induction n arbitrary: w j)
  case 0
  then show ?case by (intro exI [of _ w]) simp
next
  case (Suc n)
  let ?s = "(startup 0 False True ''a.png'' x y m img)\<lparr>currentTime := w\<rparr>"
  have j: "j < 100" using Suc.prems(2) by simp
  note f = before_first_poll [OF Suc.prems(1) j]
  have body: "loopBody ?s (idle m)
      = ([Usleep 10000], (startup 0 False True ''a.png'' x y m img)\<lparr>currentTime := w + 10\<rparr>)"
    using f(1) by (simp add: eval_defs)
  have "Suc j + n \<le> 100" using Suc.prems(2) by simp
  from Suc.IH [OF f(2) this] obtain w' where
    w': "unat w' = 10 * (Suc j + n)"
    and run: "mainLoop ((startup 0 False True ''a.png'' x y m img)\<lparr>currentTime := w + 10\<rparr>)
        (replicate n (idle m))
     = (replicate n [Usleep 10000],
        (startup 0 False True ''a.png'' x y m img)\<lparr>currentTime := w'\<rparr>)"
    by blast
  have "mainLoop ?s (replicate (Suc n) (idle m))
     = (replicate (Suc n) [Usleep 10000],
        (startup 0 False True ''a.png'' x y m img)\<lparr>currentTime := w'\<rparr>)"
    using body run by (simp add: mainLoop.simps(2) startup_def)
  with w' show ?case by auto
qed

lemma first_poll_state:
  "mainLoop (startup 0 False True ''a.png'' x y m img) (replicate 100 (idle m))
   = (replicate 100 [Usleep 10000],
      (startup 0 False True ''a.png'' x y m img)\<lparr>currentTime := 1000\<rparr>)"
proof -
  have s: "startup 0 False True ''a.png'' x y m img
      = (startup 0 False True ''a.png'' x y m img)\<lparr>currentTime := 0\<rparr>"
    by (simp add: startup_def)
  have "unat (0 :: 32 word) = 10 * 0" "0 + 100 \<le> (100 :: nat)" by simp_all
  from idle_before_first_poll [OF this, of x y m img] obtain w' :: "32 word" where
    w': "unat w' = 10 * (0 + 100)"
    and run: "mainLoop ((startup 0 False True ''a.png'' x y m img)\<lparr>currentTime := 0\<rparr>)
        (replicate 100 (idle m))
     = (replicate 100 [Usleep 10000],
        (startup 0 False True ''a.png'' x y m img)\<lparr>currentTime := w'\<rparr>)"
    by blast
  have "unat w' = unat (1000 :: 32 word)" using w' by simp
  then have "w' = 1000" by (simp only: word_unat_eq_iff)
  with run s show ?thesis by simp
qed

text \<open>
  Claim C4, at the input where the code departs from it. \<open>getFileModificationTime\<close> does not
  look at the result of \<open>stat\<close>, so a failed query returns what the uninitialised \<open>attr\<close>
  holds: no sentinel, and a value that a successful query can return as well. A session is
  started with \<open>-n -m\<close> on \<open>a.png\<close> (modification time 1700000000); after 100 idle iterations
  the file is gone, and in the 101st \<open>stat\<close> fails while \<open>attr\<close> holds 0: the poll sets
  \<open>reload\<close>, the loop calls \<open>loadPng\<close> in the same iteration, and 0 is remembered as the
  modification time.
\<close>

theorem failed_query_sets_reload:
  "getFileModificationTime None 1700000000 = getFileModificationTime (Some 1700000000) 0
   \<and> mainLoop (startup 0 False True ''a.png'' 0 0 1700000000 [1])
         (replicate 100 (idle 1700000000) @ [missingFile 0])
       = (replicate 100 [Usleep 10000]
            @ [[Stat ''a.png'', LoadPng ''a.png'', Usleep 200000, Usleep 10000]],
          \<lparr>run = True, reload = False, xOffset = 0, yOffset = 0, step = 1,
           currentTime = 1010, lastModCheckTime = 1000, lastFileMod = 0,
           timeout = 0, interactive = False, monitorChanges = True,
           imagePath = ''a.png'', image = [1]\<rparr>)
   \<and> reload (snd (monitorStep
         ((startup 0 False True ''a.png'' 0 0 1700000000 [1])\<lparr>currentTime := 1000\<rparr>)
         (missingFile 0)))"
proof -
  have "mainLoop ((startup 0 False True ''a.png'' 0 0 1700000000 [1])\<lparr>currentTime := 1000\<rparr>)
          [missingFile 0]
       = ([[Stat ''a.png'', LoadPng ''a.png'', Usleep 200000, Usleep 10000]],
          \<lparr>run = True, reload = False, xOffset = 0, yOffset = 0, step = 1,
           currentTime = 1010, lastModCheckTime = 1000, lastFileMod = 0,
           timeout = 0, interactive = False, monitorChanges = True,
           imagePath = ''a.png'', image = [1]\<rparr>)"
    by (simp add: eval_defs)
  then have "mainLoop (startup 0 False True ''a.png'' 0 0 1700000000 [1])
         (replicate 100 (idle 1700000000) @ [missingFile 0])
       = (replicate 100 [Usleep 10000]
            @ [[Stat ''a.png'', LoadPng ''a.png'', Usleep 200000, Usleep 10000]],
          \<lparr>run = True, reload = False, xOffset = 0, yOffset = 0, step = 1,
           currentTime = 1010, lastModCheckTime = 1000, lastFileMod = 0,
           timeout = 0, interactive = False, monitorChanges = True,
           imagePath = ''a.png'', image = [1]\<rparr>)"
    by (simp only: mainLoop_append first_poll_state fst_conv snd_conv)
  moreover have "getFileModificationTime None 1700000000
      = getFileModificationTime (Some 1700000000) 0"
    by (simp add: getFileModificationTime_def)
  moreover have "reload (snd (monitorStep
         ((startup 0 False True ''a.png'' 0 0 1700000000 [1])\<lparr>currentTime := 1000\<rparr>)
         (missingFile 0)))"
    by (simp add: eval_defs)
  ultimately show ?thesis by (simp only: simp_thms)
qed

end
